theory Spec2Isabelle
  imports Main "HOL-Library.Word"
begin

section \<open>Bytes and the Base64 transport encoding\<close>

text \<open>
  The service moves every image as a Base64 string. \<^verbatim>\<open>decode_image\<close> calls
  \<^verbatim>\<open>base64.b64decode(s)\<close> with its default \<^verbatim>\<open>validate=False\<close>, and
  \<^verbatim>\<open>encode_image\<close> calls \<^verbatim>\<open>base64.b64encode(bytes)\<close>. Both are modelled here as
  CPython's \<^verbatim>\<open>binascii\<close> computes them. A byte is an 8-bit word; the 6-bit digits and
  the decoder's registers are natural numbers, with \<^verbatim>\<open>x << k\<close> written as a
  multiplication, \<^verbatim>\<open>x >> k\<close> as a division and a mask as a remainder (the operands of
  every \<^verbatim>\<open>|\<close> of the C code have disjoint bits, so it is a sum).
\<close>

type_synonym byte = "8 word"

definition b64_char :: "nat \<Rightarrow> char" where
  \<comment> \<open>the alphabet \<^verbatim>\<open>A-Z a-z 0-9 + /\<close>, indexed by a 6-bit digit\<close>
  "b64_char v =
     char_of (if v < 26 then v + 65 else if v < 52 then v + 71
              else if v < 62 then v - 4 else if v = 62 then 43 else (47::nat))"

definition b64_value :: "char \<Rightarrow> nat option" where
  \<comment> \<open>\<^verbatim>\<open>table_a2b_base64\<close>: the digit of an alphabet character, nothing for any other\<close>
  "b64_value c =
     (let n = (of_char c :: nat) in
      if 65 \<le> n \<and> n \<le> 90 then Some (n - 65)
      else if 97 \<le> n \<and> n \<le> 122 then Some (n - 71)
      else if 48 \<le> n \<and> n \<le> 57 then Some (n + 4)
      else if n = 43 then Some 62
      else if n = 47 then Some 63
      else None)"

fun b64encode :: "byte list \<Rightarrow> string" where
  "b64encode (a # b # c # rest) =
     b64_char (unat a div 4) #
     b64_char (unat a mod 4 * 16 + unat b div 16) #
     b64_char (unat b mod 16 * 4 + unat c div 64) #
     b64_char (unat c mod 64) # b64encode rest"
| "b64encode [a, b] =
     [b64_char (unat a div 4),
      b64_char (unat a mod 4 * 16 + unat b div 16),
      b64_char (unat b mod 16 * 4),
      CHR ''='']"
| "b64encode [a] =
     [b64_char (unat a div 4), b64_char (unat a mod 4 * 16), CHR ''='', CHR ''='']"
| "b64encode [] = []"

datatype b64_error = Non_ascii | Invalid_length | Incorrect_padding

text \<open>
  The loop of \<^verbatim>\<open>binascii.a2b_base64\<close> in its non-strict mode. A character outside the
  alphabet is skipped. A pad character counts only when two or more digits of the
  current quad have been read, and the pad that completes the quad ends the decoding
  with success, whatever follows. At the end of the input an unfinished quad is an
  error.
\<close>

fun a2b_loop :: "nat \<Rightarrow> nat \<Rightarrow> nat \<Rightarrow> byte list \<Rightarrow> string \<Rightarrow> b64_error + byte list" where
  "a2b_loop quad_pos leftchar pads out [] =
     (if quad_pos \<noteq> 0
      then Inl (if quad_pos = 1 then Invalid_length else Incorrect_padding)
      else Inr out)"
| "a2b_loop quad_pos leftchar pads out (c # cs) =
     (if c = CHR ''='' then
        (if 2 \<le> quad_pos \<and> 4 \<le> quad_pos + (pads + 1) then Inr out
         else a2b_loop quad_pos leftchar (if 2 \<le> quad_pos then pads + 1 else pads) out cs)
      else
        (case b64_value c of
           None \<Rightarrow> a2b_loop quad_pos leftchar pads out cs
         | Some this_ch \<Rightarrow>
             if quad_pos = 0 then a2b_loop 1 this_ch 0 out cs
             else if quad_pos = 1 then
               a2b_loop 2 (this_ch mod 16) 0 (out @ [of_nat (leftchar * 4 + this_ch div 16)]) cs
             else if quad_pos = 2 then
               a2b_loop 3 (this_ch mod 4) 0 (out @ [of_nat (leftchar * 16 + this_ch div 4)]) cs
             else a2b_loop 0 0 0 (out @ [of_nat (leftchar * 64 + this_ch)]) cs))"

definition b64decode :: "string \<Rightarrow> b64_error + byte list" where
  \<comment> \<open>a \<^verbatim>\<open>str\<close> argument is first encoded as ASCII, which raises on any other character\<close>
  "b64decode s =
     (if list_ex (\<lambda>c. 128 \<le> (of_char c :: nat)) s then Inl Non_ascii
      else a2b_loop 0 0 0 [] s)"


section \<open>Python values: truthiness and integer literals\<close>

text \<open>
  Form values are Python strings; a character of the model is a code point below 256.
  \<^verbatim>\<open>None\<close>, the empty string and the integer zero are false in a condition. An
  uploaded file is a werkzeug \<^verbatim>\<open>FileStorage\<close>, which is false when its file name is
  empty (what a browser sends for a file field left blank).
\<close>

record upload =
  filename :: string
  content :: "byte list"

definition truthy_str :: "string option \<Rightarrow> bool" where
  "truthy_str v = (case v of None \<Rightarrow> False | Some s \<Rightarrow> s \<noteq> [])"

definition truthy_int :: "int option \<Rightarrow> bool" where
  "truthy_int v = (case v of None \<Rightarrow> False | Some n \<Rightarrow> n \<noteq> 0)"

definition truthy_file :: "upload option \<Rightarrow> bool" where
  "truthy_file v = (case v of None \<Rightarrow> False | Some f \<Rightarrow> filename f \<noteq> [])"

definition int_value :: "int option \<Rightarrow> int" where
  \<comment> \<open>the integer a true \<^verbatim>\<open>int\<close> variable holds\<close>
  "int_value v = (case v of None \<Rightarrow> 0 | Some n \<Rightarrow> n)"

text \<open>
  \<^verbatim>\<open>int(s)\<close> and \<^verbatim>\<open>int(s, 16)\<close> on a string, as CPython's \<^verbatim>\<open>PyLong_FromString\<close>
  reads them: white space on both sides, one sign, for base 16 an optional \<^verbatim>\<open>0x\<close>,
  then digits that single underscores may separate. A string with a character of
  code 127 or more is first mapped to ASCII: white space becomes a blank and any other
  character a question mark, which no literal contains. (The limit that recent
  interpreters put on the number of decimal digits is not part of the model.)
\<close>

definition Py_ISSPACE :: "char \<Rightarrow> bool" where
  "Py_ISSPACE c = ((of_char c :: nat) \<in> {9, 10, 11, 12, 13, 32})"

definition ascii_of_unicode :: "char \<Rightarrow> char" where
  "ascii_of_unicode c =
     (let n = (of_char c :: nat) in
      if n < 127 then c else if n = 133 \<or> n = 160 then CHR '' '' else CHR ''?'')"

definition digit_value :: "char \<Rightarrow> nat" where
  \<comment> \<open>\<^verbatim>\<open>_PyLong_DigitValue\<close>; 37 stands for a character that is no digit of any base\<close>
  "digit_value c =
     (let n = (of_char c :: nat) in
      if 48 \<le> n \<and> n \<le> 57 then n - 48
      else if 97 \<le> n \<and> n \<le> 122 then n - 87
      else if 65 \<le> n \<and> n \<le> 90 then n - 55
      else 37)"

fun scan_digits :: "nat \<Rightarrow> char \<Rightarrow> nat \<Rightarrow> nat \<Rightarrow> string \<Rightarrow> (nat \<times> nat \<times> string) option" where
  "scan_digits base prev acc digits [] =
     (if prev = CHR ''_'' then None else Some (acc, digits, []))"
| "scan_digits base prev acc digits (c # cs) =
     (if c = CHR ''_'' then
        (if prev = CHR ''_'' then None else scan_digits base c acc digits cs)
      else if digit_value c < base then
        scan_digits base c (acc * base + digit_value c) (digits + 1) cs
      else if prev = CHR ''_'' then None
      else Some (acc, digits, c # cs))"

definition skip_sign :: "string \<Rightarrow> int \<times> string" where
  "skip_sign s =
     (case s of
        [] \<Rightarrow> (1, [])
      | c # r \<Rightarrow> if c = CHR ''+'' then (1, r) else if c = CHR ''-'' then (- 1, r) else (1, s))"

definition skip_base_prefix :: "nat \<Rightarrow> string \<Rightarrow> string" where
  \<comment> \<open>\<^verbatim>\<open>0x\<close> or \<^verbatim>\<open>0X\<close> before a base-16 literal, and one underscore after it\<close>
  "skip_base_prefix base s =
     (case s of
        z # x # r \<Rightarrow>
          if base = 16 \<and> z = CHR ''0'' \<and> (x = CHR ''x'' \<or> x = CHR ''X'')
          then (case r of [] \<Rightarrow> r | u # r' \<Rightarrow> if u = CHR ''_'' then r' else r)
          else s
      | _ \<Rightarrow> s)"

definition PyLong_FromString :: "nat \<Rightarrow> string \<Rightarrow> int option" where
  "PyLong_FromString base s =
     (case skip_sign (dropWhile Py_ISSPACE s) of
        (sign, s2) \<Rightarrow>
          (case skip_base_prefix base s2 of
             [] \<Rightarrow> None
           | c # cs \<Rightarrow>
               if c = CHR ''_'' then None
               else (case scan_digits base (CHR 0x00) 0 0 (c # cs) of
                       None \<Rightarrow> None
                     | Some (v, digits, rest) \<Rightarrow>
                         if digits = 0 then None
                         else if dropWhile Py_ISSPACE rest = [] then Some (sign * int v)
                         else None)))"

definition py_int :: "nat \<Rightarrow> string \<Rightarrow> int option" where
  \<comment> \<open>\<^verbatim>\<open>int(s, base)\<close>; \<open>None\<close> is the \<^verbatim>\<open>ValueError\<close>\<close>
  "py_int base s = PyLong_FromString base (map ascii_of_unicode s)"

section \<open>Python floats\<close>

text \<open>
  The proportional branches of the resize handler compute
  \<^verbatim>\<open>int(width * (original_height / original_width))\<close>: a true division of two integers,
  a product of an integer and a float, and a truncation. All three are IEEE 754
  binary64 operations, rounded to nearest with ties to even. The operands here are
  never negative, so a float is a pair \<open>(m, e)\<close> that stands for \<open>m * 2 ^ e\<close>, or
  infinity.
\<close>

datatype pyfloat = Finite nat int | Infinity

fun bit_length :: "nat \<Rightarrow> nat" where
  "bit_length n = (if n = 0 then 0 else Suc (bit_length (n div 2)))"

definition rne_div :: "nat \<Rightarrow> nat \<Rightarrow> nat" where
  \<comment> \<open>the integer nearest to \<open>num / den\<close>, the even one of two that are equally near\<close>
  "rne_div num den =
     (let q = num div den; r = num mod den in
      if den < 2 * r \<or> (2 * r = den \<and> odd q) then q + 1 else q)"

definition scaled :: "nat \<Rightarrow> nat \<Rightarrow> int \<Rightarrow> nat \<times> nat" where
  \<comment> \<open>the fraction \<open>(n / d) * 2 ^ t\<close>\<close>
  "scaled n d t = (if 0 \<le> t then (n * 2 ^ nat t, d) else (n, d * 2 ^ nat (- t)))"

definition round_double :: "nat \<Rightarrow> nat \<Rightarrow> int \<Rightarrow> pyfloat" where
  \<comment> \<open>the binary64 nearest to \<open>(n / d) * 2 ^ s\<close>, for \<open>d > 0\<close>: 53 bits of mantissa,
      exponents from \<open>-1074\<close>, infinity from \<open>2 ^ 1024\<close> on\<close>
  "round_double n d s =
     (if n = 0 then Finite 0 0
      else
        let k = int (bit_length n) - int (bit_length d) + s;
            e1 = (case scaled n d (s - (k - 53)) of
                    (num, den) \<Rightarrow> if 2 ^ 53 \<le> num div den then k - 52 else k - 53);
            e = max e1 (- 1074);
            m = (case scaled n d (s - e) of (num, den) \<Rightarrow> rne_div num den)
        in if 971 < e \<or> (e = 971 \<and> 2 ^ 53 \<le> m) then Infinity else Finite m e)"

definition int_truediv :: "nat \<Rightarrow> nat \<Rightarrow> string + pyfloat" where
  \<comment> \<open>\<^verbatim>\<open>a / b\<close> on integers\<close>
  "int_truediv a b =
     (if b = 0 then Inl ''division by zero''
      else (case round_double a b 0 of
              Infinity \<Rightarrow> Inl ''integer division result too large for a float''
            | x \<Rightarrow> Inr x))"

definition float_of_int :: "nat \<Rightarrow> string + pyfloat" where
  "float_of_int n =
     (case round_double n 1 0 of
        Infinity \<Rightarrow> Inl ''int too large to convert to float''
      | x \<Rightarrow> Inr x)"

definition float_mul :: "pyfloat \<Rightarrow> pyfloat \<Rightarrow> pyfloat" where
  \<comment> \<open>the product of two finite floats; an infinite operand does not occur, since the
      conversions that would make one raise instead\<close>
  "float_mul x y =
     (case (x, y) of
        (Finite m1 e1, Finite m2 e2) \<Rightarrow> round_double (m1 * m2) 1 (e1 + e2)
      | _ \<Rightarrow> Infinity)"

definition int_of_float :: "pyfloat \<Rightarrow> string + int" where
  \<comment> \<open>\<^verbatim>\<open>int(x)\<close>: truncation\<close>
  "int_of_float x =
     (case x of
        Infinity \<Rightarrow> Inl ''cannot convert float infinity to integer''
      | Finite m e \<Rightarrow>
          Inr (if 0 \<le> e then int (m * 2 ^ nat e) else int (m div 2 ^ nat (- e))))"

definition scale_dimension :: "int \<Rightarrow> nat \<Rightarrow> nat \<Rightarrow> string + int" where
  \<comment> \<open>\<^verbatim>\<open>int(given * (num / den))\<close> for a given dimension that passed the check
      \<^verbatim>\<open>given > 0\<close>\<close>
  "scale_dimension given num den =
     (case int_truediv num den of
        Inl e \<Rightarrow> Inl e
      | Inr aspect_ratio \<Rightarrow>
          (case float_of_int (nat given) of
             Inl e \<Rightarrow> Inl e
           | Inr g \<Rightarrow> int_of_float (float_mul g aspect_ratio)))"


section \<open>Images and the Pillow operations with a fixed meaning\<close>

text \<open>
  Every image the handlers touch has passed \<^verbatim>\<open>convert("RGBA")\<close> or was made in mode
  RGBA: a width, a height and one 8-bit RGBA quadruple per pixel, row by row.
\<close>

type_synonym pixel = "byte \<times> byte \<times> byte \<times> byte"

record image =
  xsize :: nat
  ysize :: nat
  pixels :: "pixel list"

definition img_size :: "image \<Rightarrow> int \<times> int" where
  \<comment> \<open>\<^verbatim>\<open>image.size\<close>\<close>
  "img_size im = (int (xsize im), int (ysize im))"

definition wf_image :: "image \<Rightarrow> bool" where
  "wf_image im = (length (pixels im) = xsize im * ysize im)"

definition alpha :: "pixel \<Rightarrow> byte" where
  "alpha p = (case p of (r, g, b, a) \<Rightarrow> a)"

definition CLIP8 :: "int \<Rightarrow> byte" where
  "CLIP8 v = (if v < 0 then 0 else if 255 < v then 255 else of_int v)"

definition Image_new :: "nat \<times> nat \<Rightarrow> int \<times> int \<times> int \<times> int \<Rightarrow> image" where
  \<comment> \<open>\<^verbatim>\<open>Image.new("RGBA", size, color)\<close>; without a colour the fill is \<open>(0, 0, 0, 0)\<close>\<close>
  "Image_new sz color =
     (case sz of (w, h) \<Rightarrow>
        (case color of (r, g, b, a) \<Rightarrow>
           \<lparr>xsize = w, ysize = h,
            pixels = replicate (w * h) (CLIP8 r, CLIP8 g, CLIP8 b, CLIP8 a)\<rparr>))"

definition paste :: "image \<Rightarrow> image \<Rightarrow> image" where
  \<comment> \<open>\<^verbatim>\<open>dst.paste(src, (0, 0))\<close> without a mask: the part of \<open>src\<close> that lies inside
      \<open>dst\<close> replaces what was there, alpha included\<close>
  "paste dst src =
     dst\<lparr>pixels :=
       map (\<lambda>i. let x = i mod xsize dst; y = i div xsize dst in
                 if x < xsize src \<and> y < ysize src then pixels src ! (y * xsize src + x)
                 else pixels dst ! i)
           [0 ..< xsize dst * ysize dst]\<rparr>"

definition SHIFTFORDIV255 :: "nat \<Rightarrow> nat" where
  "SHIFTFORDIV255 a = (a div 256 + a) div 256"

definition composite_pixel :: "pixel \<Rightarrow> pixel \<Rightarrow> pixel" where
  \<comment> \<open>one pixel of Pillow's \<^verbatim>\<open>ImagingAlphaComposite\<close>: \<open>src\<close> over \<open>dst\<close>, in integers
      with seven more bits of precision; no intermediate value reaches \<open>2 ^ 32\<close>\<close>
  "composite_pixel dst src =
     (case dst of (dr, dg, db, da) \<Rightarrow>
        (case src of (sr, sg, sb, sa) \<Rightarrow>
           if sa = 0 then dst
           else
             let blend = unat da * (255 - unat sa);
                 outa255 = unat sa * 255 + blend;
                 coef1 = unat sa * 255 * 255 * 128 div outa255;
                 coef2 = 255 * 128 - coef1;
                 tmpr = unat sr * coef1 + unat dr * coef2;
                 tmpg = unat sg * coef1 + unat dg * coef2;
                 tmpb = unat sb * coef1 + unat db * coef2
             in (of_nat (SHIFTFORDIV255 (tmpr + 128 * 128) div 128),
                 of_nat (SHIFTFORDIV255 (tmpg + 128 * 128) div 128),
                 of_nat (SHIFTFORDIV255 (tmpb + 128 * 128) div 128),
                 of_nat (SHIFTFORDIV255 (outa255 + 128)))))"

definition alpha_composite :: "image \<Rightarrow> image \<Rightarrow> string + image" where
  \<comment> \<open>\<^verbatim>\<open>Image.alpha_composite(im1, im2)\<close>: \<open>im2\<close> over \<open>im1\<close>\<close>
  "alpha_composite im1 im2 =
     (if xsize im1 \<noteq> xsize im2 \<or> ysize im1 \<noteq> ysize im2 then Inl ''images do not match''
      else Inr \<lparr>xsize = xsize im1, ysize = ysize im1,
                pixels = map2 composite_pixel (pixels im1) (pixels im2)\<rparr>)"

section \<open>The external libraries\<close>

text \<open>
  The image file parsers, the PNG writer, the Lanczos filter and the background-removal
  model are not code of this service. They are parameters of the model: a function
  each, which returns its result or the message \<^verbatim>\<open>str(e)\<close> of the exception it raises.
  The type \<open>'p\<close> is an opened image in whatever mode its file has.
\<close>

record 'p library =
  Image_open :: "byte list \<Rightarrow> string + 'p"
  convert_RGBA :: "'p \<Rightarrow> string + image"
  save_PNG :: "image \<Rightarrow> string + byte list"
  resize_LANCZOS :: "image \<Rightarrow> int \<times> int \<Rightarrow> string + image"
  remove :: "image \<Rightarrow> string + image"

definition open_RGBA :: "'p library \<Rightarrow> byte list \<Rightarrow> string + image" where
  \<comment> \<open>\<^verbatim>\<open>Image.open(io.BytesIO(data)).convert("RGBA")\<close>\<close>
  "open_RGBA L data =
     (case Image_open L data of Inl e \<Rightarrow> Inl e | Inr opened \<Rightarrow> convert_RGBA L opened)"

section \<open>The two helpers\<close>

definition decode_image :: "'p library \<Rightarrow> string \<Rightarrow> image option" where
  "decode_image L base64_string =
     (case b64decode base64_string of
        Inl e \<Rightarrow> None
      | Inr image_bytes \<Rightarrow>
          (case open_RGBA L image_bytes of Inl e \<Rightarrow> None | Inr im \<Rightarrow> Some im))"

definition data_uri_prefix :: string where
  "data_uri_prefix = ''data:image/png;base64,''"

definition encode_image :: "'p library \<Rightarrow> image \<Rightarrow> string option" where
  "encode_image L im =
     (case save_PNG L im of
        Inl e \<Rightarrow> None
      | Inr buffered \<Rightarrow> Some (data_uri_prefix @ b64encode buffered))"

section \<open>Requests, responses and the three handlers\<close>

record request =
  form :: "string \<rightharpoonup> string"
  files :: "string \<rightharpoonup> upload"

record response =
  status :: nat
  json :: "(string \<times> string) list"

definition jsonify :: "(string \<times> string) list \<Rightarrow> nat \<Rightarrow> response" where
  "jsonify body code = \<lparr>status = code, json = body\<rparr>"

definition remove_background :: "'p library \<Rightarrow> request \<Rightarrow> response" where
  "remove_background L req =
     (case form req ''image_data'' of
        None \<Rightarrow> jsonify [(''error'', ''No image_data provided'')] 400
      | Some image_data_b64 \<Rightarrow>
          (case decode_image L image_data_b64 of
             None \<Rightarrow> jsonify [(''error'', ''Invalid image data'')] 400
           | Some input_image \<Rightarrow>
               (case remove L input_image of
                  Inl e \<Rightarrow>
                    jsonify [(''error'', ''Failed to remove background''), (''details'', e)] 500
                | Inr output_image \<Rightarrow>
                    (case encode_image L output_image of
                       None \<Rightarrow> jsonify [(''error'', ''Failed to encode processed image'')] 500
                     | Some processed_image_b64 \<Rightarrow>
                         jsonify [(''image_data'', processed_image_b64),
                                  (''message'', ''Background removed successfully!'')] 200))))"

definition parse_hex_color :: "string \<Rightarrow> (int \<times> int \<times> int \<times> int) option" where
  \<comment> \<open>lines 89 to 93; \<open>None\<close> is the \<^verbatim>\<open>ValueError\<close>\<close>
  "parse_hex_color color =
     (let hex_color = dropWhile (\<lambda>c. c = CHR ''#'') color in
      case py_int 16 (take 2 hex_color) of
        None \<Rightarrow> None
      | Some r \<Rightarrow>
          (case py_int 16 (take 2 (drop 2 hex_color)) of
             None \<Rightarrow> None
           | Some g \<Rightarrow>
               (case py_int 16 (take 2 (drop 4 hex_color)) of
                  None \<Rightarrow> None
                | Some b \<Rightarrow> Some (r, g, b, 255))))"

definition make_background ::
  "'p library \<Rightarrow> image \<Rightarrow> string option \<Rightarrow> upload option \<Rightarrow> string + (response + image)" where
  \<comment> \<open>lines 78 to 94: an exception, the early return for a bad colour, or the background\<close>
  "make_background L current_image color background_image_file =
     (let new_background = Image_new (xsize current_image, ysize current_image) (0, 0, 0, 0) in
      if truthy_file background_image_file then
        (case background_image_file of
           None \<Rightarrow> Inr (Inr new_background)
         | Some f \<Rightarrow>
             (case open_RGBA L (content f) of
                Inl e \<Rightarrow> Inl e
              | Inr opened \<Rightarrow>
                  (case resize_LANCZOS L opened (img_size current_image) of
                     Inl e \<Rightarrow> Inl e
                   | Inr bg_image \<Rightarrow> Inr (Inr (paste new_background bg_image)))))
      else if truthy_str color then
        (case color of
           None \<Rightarrow> Inr (Inr new_background)
         | Some c \<Rightarrow>
             (case parse_hex_color c of
                None \<Rightarrow> Inr (Inl (jsonify [(''error'', ''Invalid color hex code'')] 400))
              | Some rgb_color \<Rightarrow>
                  Inr (Inr (Image_new (xsize current_image, ysize current_image) rgb_color))))
      else Inr (Inr new_background))"

definition edit_background :: "'p library \<Rightarrow> request \<Rightarrow> response" where
  "edit_background L req =
     (case form req ''image_data'' of
        None \<Rightarrow> jsonify [(''error'', ''No image_data provided'')] 400
      | Some image_data_b64 \<Rightarrow>
          (case decode_image L image_data_b64 of
             None \<Rightarrow> jsonify [(''error'', ''Invalid current image data'')] 400
           | Some current_image \<Rightarrow>
               let color = form req ''color'';
                   background_image_file = files req ''background_image''
               in
                 if \<not> truthy_str color \<and> \<not> truthy_file background_image_file then
                   jsonify [(''error'',
                             ''Either 'color' or 'background_image' must be provided'')] 400
                 else
                   (case make_background L current_image color background_image_file of
                      Inl e \<Rightarrow>
                        jsonify [(''error'', ''Failed to edit background''), (''details'', e)] 500
                    | Inr (Inl early) \<Rightarrow> early
                    | Inr (Inr new_background) \<Rightarrow>
                        (case alpha_composite new_background current_image of
                           Inl e \<Rightarrow>
                             jsonify [(''error'', ''Failed to edit background''),
                                      (''details'', e)] 500
                         | Inr final_image \<Rightarrow>
                             (case encode_image L final_image of
                                None \<Rightarrow>
                                  jsonify [(''error'', ''Failed to encode processed image'')] 500
                              | Some processed_image_b64 \<Rightarrow>
                                  jsonify [(''image_data'', processed_image_b64),
                                           (''message'', ''Background edited successfully!'')]
                                    200)))))"

definition parse_dimension :: "string option \<Rightarrow> string \<Rightarrow> string \<Rightarrow> response + int option" where
  \<comment> \<open>lines 130 to 136 for the width and 138 to 144 for the height: the same block with
      two messages\<close>
  "parse_dimension dim_str not_positive invalid =
     (case dim_str of
        None \<Rightarrow> Inr None
      | Some s \<Rightarrow>
          if s = [] then Inr None
          else (case py_int 10 s of
                  None \<Rightarrow> Inl (jsonify [(''error'', invalid)] 400)
                | Some v \<Rightarrow>
                    if v \<le> 0 then Inl (jsonify [(''error'', not_positive)] 400)
                    else Inr (Some v)))"

definition resize_target :: "image \<Rightarrow> int option \<Rightarrow> int option \<Rightarrow> string + int \<times> int" where
  \<comment> \<open>lines 157 to 171: the size handed to \<^verbatim>\<open>resize\<close>. The last branch is the
      \<^verbatim>\<open>UnboundLocalError\<close> of a chain in which no condition held\<close>
  "resize_target current_image width height =
     (let original_width = xsize current_image; original_height = ysize current_image in
      if truthy_int width \<and> truthy_int height then Inr (int_value width, int_value height)
      else if truthy_int width then
        (case scale_dimension (int_value width) original_height original_width of
           Inl e \<Rightarrow> Inl e
         | Inr new_height \<Rightarrow> Inr (int_value width, new_height))
      else if truthy_int height then
        (case scale_dimension (int_value height) original_width original_height of
           Inl e \<Rightarrow> Inl e
         | Inr new_width \<Rightarrow> Inr (new_width, int_value height))
      else Inl ''UnboundLocalError'')"

definition resize_image :: "'p library \<Rightarrow> request \<Rightarrow> response" where
  "resize_image L req =
     (case form req ''image_data'' of
        None \<Rightarrow> jsonify [(''error'', ''No image_data provided'')] 400
      | Some image_data_b64 \<Rightarrow>
          (case decode_image L image_data_b64 of
             None \<Rightarrow> jsonify [(''error'', ''Invalid current image data'')] 400
           | Some current_image \<Rightarrow>
               (case parse_dimension (form req ''width'')
                       ''Width must be a positive integer'' ''Invalid width parameter'' of
                  Inl early \<Rightarrow> early
                | Inr width \<Rightarrow>
                    (case parse_dimension (form req ''height'')
                            ''Height must be a positive integer'' ''Invalid height parameter'' of
                       Inl early \<Rightarrow> early
                     | Inr height \<Rightarrow>
                         if width = None \<and> height = None then
                           (case encode_image L current_image of
                              None \<Rightarrow> jsonify [(''error'', ''Failed to encode image'')] 500
                            | Some processed_image_b64 \<Rightarrow>
                                jsonify [(''image_data'', processed_image_b64),
                                         (''message'',
                                          ''No dimensions provided, image returned as is.'')] 200)
                         else
                           (case resize_target current_image width height of
                              Inl e \<Rightarrow>
                                jsonify [(''error'', ''Failed to resize image''),
                                         (''details'', e)] 500
                            | Inr target \<Rightarrow>
                                (case resize_LANCZOS L current_image target of
                                   Inl e \<Rightarrow>
                                     jsonify [(''error'', ''Failed to resize image''),
                                              (''details'', e)] 500
                                 | Inr resized_image \<Rightarrow>
                                     (case encode_image L resized_image of
                                        None \<Rightarrow>
                                          jsonify [(''error'',
                                                    ''Failed to encode processed image'')] 500
                                      | Some processed_image_b64 \<Rightarrow>
                                          jsonify [(''image_data'', processed_image_b64),
                                                   (''message'', ''Image resized successfully!'')]
                                            200)))))))"


section \<open>What a client reads from a response, and what the libraries promise\<close>

definition response_image :: "'p library \<Rightarrow> response \<Rightarrow> image option" where
  \<comment> \<open>the image a client obtains from a response: the Base64 text after the
      data-URI prefix, decoded\<close>
  "response_image L resp =
     (case map_of (json resp) ''image_data'' of
        None \<Rightarrow> None
      | Some s \<Rightarrow> decode_image L (drop (length data_uri_prefix) s))"

definition png_lossless :: "'p library \<Rightarrow> bool" where
  \<comment> \<open>PNG is lossless: a written RGBA image reads back as itself\<close>
  "png_lossless L = (\<forall>im data. save_PNG L im = Inr data \<longrightarrow> open_RGBA L data = Inr im)"

definition resize_exact :: "'p library \<Rightarrow> bool" where
  \<comment> \<open>\<^verbatim>\<open>resize\<close> returns an image of the size it was given\<close>
  "resize_exact L = (\<forall>im target r. resize_LANCZOS L im target = Inr r \<longrightarrow> img_size r = target)"

definition opens_wellformed :: "'p library \<Rightarrow> bool" where
  \<comment> \<open>an opened image holds one pixel per position\<close>
  "opens_wellformed L = (\<forall>data im. open_RGBA L data = Inr im \<longrightarrow> wf_image im)"

text \<open>
  Base64 as RFC 4648 defines it, for the comparison with what \<^verbatim>\<open>b64decode\<close> accepts:
  alphabet characters only, then at most two pad characters, the whole a multiple of
  four characters long.
\<close>

definition is_b64_char :: "char \<Rightarrow> bool" where
  "is_b64_char c = (b64_value c \<noteq> None)"

definition valid_base64 :: "string \<Rightarrow> bool" where
  "valid_base64 s =
     (let padding = dropWhile is_b64_char s in
      length s mod 4 = 0 \<and> (padding = [] \<or> padding = ''='' \<or> padding = ''==''))"

text \<open>
  A colour string of exactly six hexadecimal digits, with or without the leading
  \<^verbatim>\<open>#\<close>, and the byte two hexadecimal digits denote.
\<close>

definition is_hex_digit :: "char \<Rightarrow> bool" where
  "is_hex_digit c = (digit_value c < 16)"

definition six_hex_digits :: "string \<Rightarrow> bool" where
  "six_hex_digits s =
     (case s of
        [] \<Rightarrow> False
      | c # r \<Rightarrow>
          let h = (if c = CHR ''#'' then r else s) in length h = 6 \<and> list_all is_hex_digit h)"

definition hex_byte :: "char \<Rightarrow> char \<Rightarrow> int" where
  "hex_byte hi lo = int (digit_value hi * 16 + digit_value lo)"

section \<open>An instance of the libraries, to run the handlers\<close>

text \<open>
  The handlers are run on concrete requests with this instance: an image file is a
  width byte, a height byte and four bytes per pixel; resizing takes the nearest pixel
  and, as Pillow does, refuses a size below one; the background removal makes every
  pixel of the colour of the first one transparent.
\<close>

fun raw_pixels :: "byte list \<Rightarrow> pixel list" where
  "raw_pixels (r # g # b # a # rest) = (r, g, b, a) # raw_pixels rest"
| "raw_pixels rest = []"

definition raw_bytes :: "pixel list \<Rightarrow> byte list" where
  "raw_bytes ps = concat (map (\<lambda>(r, g, b, a). [r, g, b, a]) ps)"

definition raw_open :: "byte list \<Rightarrow> string + image" where
  "raw_open data =
     (case data of
        w # h # rest \<Rightarrow>
          if w \<noteq> 0 \<and> h \<noteq> 0 \<and> length rest = 4 * (unat w * unat h)
          then Inr \<lparr>xsize = unat w, ysize = unat h, pixels = raw_pixels rest\<rparr>
          else Inl ''cannot identify image file''
      | _ \<Rightarrow> Inl ''cannot identify image file'')"

definition raw_save :: "image \<Rightarrow> string + byte list" where
  "raw_save im =
     (if 0 < xsize im \<and> xsize im < 256 \<and> 0 < ysize im \<and> ysize im < 256 \<and> wf_image im
      then Inr (of_nat (xsize im) # of_nat (ysize im) # raw_bytes (pixels im))
      else Inl ''cannot write image'')"

definition raw_resize :: "image \<Rightarrow> int \<times> int \<Rightarrow> string + image" where
  "raw_resize im target =
     (case target of (w, h) \<Rightarrow>
        if w < 1 \<or> h < 1 then Inl ''height and width must be > 0''
        else Inr \<lparr>xsize = nat w, ysize = nat h,
                  pixels =
                    map (\<lambda>i. let j = (i div nat w * ysize im div nat h) * xsize im
                                       + i mod nat w * xsize im div nat w
                              in if j < length (pixels im) then pixels im ! j else (0, 0, 0, 0))
                        [0 ..< nat w * nat h]\<rparr>)"

definition raw_remove :: "image \<Rightarrow> string + image" where
  "raw_remove im =
     (case pixels im of
        [] \<Rightarrow> Inr im
      | p0 # rest \<Rightarrow>
          Inr (im\<lparr>pixels :=
                 map (\<lambda>p. if p = p0 then (case p of (r, g, b, a) \<Rightarrow> (r, g, b, 0)) else p)
                     (pixels im)\<rparr>))"

definition raw_library :: "image library" where
  "raw_library =
     \<lparr>Image_open = raw_open, convert_RGBA = Inr, save_PNG = raw_save,
      resize_LANCZOS = raw_resize, remove = raw_remove\<rparr>"



text \<open>
  A string that \<^verbatim>\<open>int\<close> reads as an integer above zero, and the one-pixel image of
  the examples below (its file is the six bytes \<open>1, 1, 10, 20, 30, 255\<close>, in Base64
  \<^verbatim>\<open>AQEKFB7/\<close>).
\<close>

definition positive_int_literal :: "string \<Rightarrow> bool" where
  "positive_int_literal s = (case py_int 10 s of None \<Rightarrow> False | Some v \<Rightarrow> 0 < v)"

definition one_pixel :: image where
  "one_pixel = \<lparr>xsize = 1, ysize = 1, pixels = [(10, 20, 30, 255)]\<rparr>"





definition hex_color_value :: "string \<Rightarrow> int \<times> int \<times> int \<times> int" where
  \<comment> \<open>the colour that six hexadecimal digits denote, opaque\<close>
  "hex_color_value s =
     (let h = (case s of [] \<Rightarrow> [] | c # r \<Rightarrow> if c = CHR ''#'' then r else s) in
      (hex_byte (h ! 0) (h ! 1), hex_byte (h ! 2) (h ! 3), hex_byte (h ! 4) (h ! 5), 255))"

text \<open>
  A one-pixel red image (its file is \<open>1, 1, 255, 0, 0, 255\<close>) and a request that
  uploads it as the background together with a colour that is no colour.
\<close>

definition red_pixel :: image where
  "red_pixel = \<lparr>xsize = 1, ysize = 1, pixels = [(255, 0, 0, 255)]\<rparr>"

definition red_background_request :: request where
  "red_background_request =
     \<lparr>form = [''image_data'' \<mapsto> ''AQEKFB7/'', ''color'' \<mapsto> ''#ZZZZZZ''],
      files = [''background_image'' \<mapsto>
                 \<lparr>filename = ''bg.png'', content = [1, 1, 255, 0, 0, 255]\<rparr>]\<rparr>"

text \<open>
  An image of 11 by 15 pixels in one colour, its file, and the request to resize it to
  the width it already has.
\<close>

definition tall_image :: image where
  "tall_image = Image_new (11, 15) (10, 20, 30, 255)"

definition tall_image_file :: "byte list" where
  "tall_image_file = 11 # 15 # raw_bytes (pixels tall_image)"

definition tall_request :: request where
  "tall_request =
     \<lparr>form = [''image_data'' \<mapsto> b64encode tall_image_file, ''width'' \<mapsto> ''11''],
      files = Map.empty\<rparr>"

text \<open>
  Alpha-over compositing as it is usually stated, for a background that is opaque: each
  colour channel of the result is the foreground's weighted by its alpha and the
  background's weighted by the rest, \<open>(f * a + b * (255 - a)) / 255\<close> rounded to the
  nearest integer, and the result is opaque. A colour component becomes a channel by
  clamping to \<open>0 .. 255\<close>.
\<close>

definition channel :: "int \<Rightarrow> byte" where
  "channel v = of_int (max 0 (min 255 v))"

definition mix :: "byte \<Rightarrow> byte \<Rightarrow> byte \<Rightarrow> byte" where
  "mix f b a = of_nat ((unat f * unat a + unat b * (255 - unat a) + 127) div 255)"

definition alpha_over_opaque :: "byte \<times> byte \<times> byte \<Rightarrow> pixel \<Rightarrow> pixel" where
  "alpha_over_opaque bg fg =
     (case bg of (br, bg', bb) \<Rightarrow>
        (case fg of (fr, fg', fb, fa) \<Rightarrow> (mix fr br fa, mix fg' bg' fa, mix fb bb fa, 255)))"

text \<open>
  A one-pixel image that is half transparent (its file is \<open>1, 1, 10, 20, 30, 128\<close>, in
  Base64 \<^verbatim>\<open>AQEKFB6A\<close>) and the same pixel blended over red.
\<close>

definition half_pixel :: image where
  "half_pixel = \<lparr>xsize = 1, ysize = 1, pixels = [(10, 20, 30, 128)]\<rparr>"

definition blended_pixel :: image where
  "blended_pixel = \<lparr>xsize = 1, ysize = 1, pixels = [(132, 10, 15, 255)]\<rparr>"

section \<open>Base64: what the decoder does with the encoder's output\<close>

lemma unat_byte_lt: "unat (a :: byte) < 256"
  using unsigned_less [of a, where 'a = nat] by simp

lemma b64_value_char: "v < 64 \<Longrightarrow> b64_value (b64_char v) = Some v"
  by (auto simp: b64_value_def b64_char_def Let_def)

lemma b64_char_not_pad: "v < 64 \<Longrightarrow> b64_char v \<noteq> CHR ''=''"
proof
  assume v: "v < 64" and e: "b64_char v = CHR ''=''"
  have "b64_value (b64_char v) = Some v" using v by (rule b64_value_char)
  moreover have "b64_value (CHR ''='') = None" by (simp add: b64_value_def)
  ultimately show False using e by simp
qed

lemma dig1: "unat (a::byte) div 4 < 64"
  using unat_byte_lt [of a] by simp

lemma dig2: "unat (a::byte) mod 4 * 16 + unat (b::byte) div 16 < 64"
proof -
  have "unat a mod 4 < 4" by simp
  moreover have "unat b div 16 < 16" using unat_byte_lt [of b] by simp
  ultimately show ?thesis by linarith
qed

lemma dig3: "unat (b::byte) mod 16 * 4 + unat (c::byte) div 64 < 64"
proof -
  have "unat b mod 16 < 16" by simp
  moreover have "unat c div 64 < 4" using unat_byte_lt [of c] by simp
  ultimately show ?thesis by linarith
qed

lemma dig4: "unat (c::byte) mod 64 < 64"
  by simp

lemma dig2_last: "unat (a::byte) mod 4 * 16 < 64"
proof -
  have "unat a mod 4 < 4" by simp
  then show ?thesis by linarith
qed

lemma dig3_last: "unat (b::byte) mod 16 * 4 < 64"
proof -
  have "unat b mod 16 < 16" by simp
  then show ?thesis by linarith
qed

lemmas digs = dig1 dig2 dig3 dig4 dig2_last dig3_last

lemma nat_join1: "(y::nat) < 16 \<Longrightarrow> x div 4 * 4 + (x mod 4 * 16 + y) div 16 = x"
  by simp

lemma nat_join2:
  "(y::nat) < 256 \<Longrightarrow> z < 4 \<Longrightarrow> (x * 16 + y div 16) mod 16 * 16 + (y mod 16 * 4 + z) div 4 = y"
  by simp

lemma nat_join3: "(z::nat) < 256 \<Longrightarrow> (y * 4 + z div 64) mod 4 * 64 + z mod 64 = z"
  by simp

lemma join1:
  "(of_nat (unat a div 4 * 4 + (unat a mod 4 * 16 + unat (b::byte) div 16) div 16) :: byte) = a"
proof -
  have "unat b div 16 < 16" using unat_byte_lt [of b] by simp
  then have "unat a div 4 * 4 + (unat a mod 4 * 16 + unat b div 16) div 16 = unat a"
    by (rule nat_join1)
  then show ?thesis by simp
qed

lemma join2:
  "(of_nat ((unat (a::byte) mod 4 * 16 + unat b div 16) mod 16 * 16
            + (unat b mod 16 * 4 + unat (c::byte) div 64) div 4) :: byte) = b"
proof -
  have "unat b < 256" by (rule unat_byte_lt)
  moreover have "unat c div 64 < 4" using unat_byte_lt [of c] by simp
  ultimately have "(unat a mod 4 * 16 + unat b div 16) mod 16 * 16
      + (unat b mod 16 * 4 + unat c div 64) div 4 = unat b"
    by (rule nat_join2)
  then show ?thesis by simp
qed

lemma join3:
  "(of_nat ((unat (b::byte) mod 16 * 4 + unat c div 64) mod 4 * 64 + unat c mod 64) :: byte) = c"
proof -
  have "unat c < 256" by (rule unat_byte_lt)
  then have "(unat b mod 16 * 4 + unat c div 64) mod 4 * 64 + unat c mod 64 = unat c"
    by (rule nat_join3)
  then show ?thesis by simp
qed

lemma join1_last: "(of_nat (unat a div 4 * 4 + (unat a mod 4 * 16) div 16) :: byte) = a"
proof -
  have "unat a div 4 * 4 + (unat a mod 4 * 16 + 0) div 16 = unat a"
    by (rule nat_join1) simp
  then show ?thesis by simp
qed

lemma join2_last:
  "(of_nat ((unat (a::byte) mod 4 * 16 + unat b div 16) mod 16 * 16
            + (unat b mod 16 * 4) div 4) :: byte) = b"
proof -
  have "unat b < 256" by (rule unat_byte_lt)
  then have "(unat a mod 4 * 16 + unat b div 16) mod 16 * 16
      + (unat b mod 16 * 4 + 0) div 4 = unat b"
    by (rule nat_join2) simp
  then show ?thesis by simp
qed

lemma a2b_digit:
  "v < 64 \<Longrightarrow> a2b_loop q l p out (b64_char v # cs) =
     (if q = 0 then a2b_loop 1 v 0 out cs
      else if q = 1 then a2b_loop 2 (v mod 16) 0 (out @ [of_nat (l * 4 + v div 16)]) cs
      else if q = 2 then a2b_loop 3 (v mod 4) 0 (out @ [of_nat (l * 16 + v div 4)]) cs
      else a2b_loop 0 0 0 (out @ [of_nat (l * 64 + v)]) cs)"
  by (simp add: b64_value_char b64_char_not_pad)

lemma a2b_pad:
  "a2b_loop q l p out (CHR ''='' # cs) =
     (if 2 \<le> q \<and> 4 \<le> q + (p + 1) then Inr out
      else a2b_loop q l (if 2 \<le> q then p + 1 else p) out cs)"
  by simp

lemma a2b_quad:
  assumes "d1 < 64" "d2 < 64" "d3 < 64" "d4 < 64"
  shows "a2b_loop 0 l p out (b64_char d1 # b64_char d2 # b64_char d3 # b64_char d4 # cs) =
         a2b_loop 0 0 0
           (out @ [of_nat (d1 * 4 + d2 div 16), of_nat (d2 mod 16 * 16 + d3 div 4),
                   of_nat (d3 mod 4 * 64 + d4)]) cs"
  using assms by (simp only: a2b_digit) simp

lemma a2b_tail2:
  assumes "d1 < 64" "d2 < 64" "d3 < 64"
  shows "a2b_loop 0 l p out [b64_char d1, b64_char d2, b64_char d3, CHR ''=''] =
         Inr (out @ [of_nat (d1 * 4 + d2 div 16), of_nat (d2 mod 16 * 16 + d3 div 4)])"
  using assms by (simp only: a2b_digit a2b_pad) simp

lemma a2b_tail1:
  assumes "d1 < 64" "d2 < 64"
  shows "a2b_loop 0 l p out [b64_char d1, b64_char d2, CHR ''='', CHR ''=''] =
         Inr (out @ [of_nat (d1 * 4 + d2 div 16)])"
  using assms by (simp only: a2b_digit a2b_pad) simp

lemma b64_roundtrip_loop: "a2b_loop 0 l p out (b64encode bs) = Inr (out @ bs)"
proof (induction bs arbitrary: l p out rule: b64encode.induct)
  case (1 a b c rest)
  have "a2b_loop 0 l p out (b64encode (a # b # c # rest)) =
        a2b_loop 0 0 0 (out @ [a, b, c]) (b64encode rest)"
    by (simp only: b64encode.simps a2b_quad [OF dig1 dig2 dig3 dig4] join1 join2 join3)
  also have "\<dots> = Inr ((out @ [a, b, c]) @ rest)" by (rule "1.IH")
  finally show ?case by simp
next
  case (2 a b)
  show ?case
    by (simp only: b64encode.simps a2b_tail2 [OF dig1 dig2 dig3_last] join1 join2_last)
next
  case (3 a)
  show ?case
    by (simp only: b64encode.simps a2b_tail1 [OF dig1 dig2_last] join1_last)
next
  case 4
  show ?case by simp
qed

lemma b64_prefixed_loop: "isl (a2b_loop 3 l 0 out (b64encode bs))"
proof (induction bs arbitrary: l out rule: b64encode.induct)
  case (1 a b c rest)
  show ?case
    by (simp add: a2b_digit digs "1.IH" del: a2b_loop.simps(2))
next
  case (2 a b)
  show ?case
    by (simp add: a2b_digit a2b_pad digs del: a2b_loop.simps(2))
next
  case (3 a)
  show ?case
    by (simp add: a2b_digit a2b_pad digs del: a2b_loop.simps(2))
next
  case 4
  show ?case by simp
qed

lemma b64_char_ascii: "v < 64 \<Longrightarrow> (of_char (b64_char v) :: nat) < 128"
  by (auto simp: b64_char_def)

lemma b64encode_ascii: "\<not> list_ex (\<lambda>c. 128 \<le> (of_char c :: nat)) (b64encode bs)"
  by (induction bs rule: b64encode.induct) (simp_all add: b64_char_ascii digs not_le)

lemma b64decode_b64encode: "b64decode (b64encode bs) = Inr bs"
  using b64_roundtrip_loop [of 0 0 "[]" bs] by (simp add: b64decode_def b64encode_ascii)

lemma prefix_loop:
  "a2b_loop 0 0 0 [] (data_uri_prefix @ cs) = a2b_loop 3 0 0 [117, 171, 90, 138, 102, 160, 123, 250, 103, 129, 182, 172, 123, 174] cs"
  by (simp add: data_uri_prefix_def b64_value_def)

lemma b64decode_prefixed: "isl (b64decode (data_uri_prefix @ b64encode bs))"
proof -
  have "\<not> list_ex (\<lambda>c. 128 \<le> (of_char c :: nat)) data_uri_prefix"
    by (simp add: data_uri_prefix_def)
  then have "b64decode (data_uri_prefix @ b64encode bs) = a2b_loop 0 0 0 [] (data_uri_prefix @ b64encode bs)"
    by (simp add: b64decode_def b64encode_ascii)
  then show ?thesis
    by (simp only: prefix_loop b64_prefixed_loop)
qed


section \<open>The library instance keeps the promises\<close>

lemma raw_pixels_bytes: "raw_pixels (raw_bytes ps) = ps"
  by (induction ps) (auto simp: raw_bytes_def)

lemma length_raw_bytes: "length (raw_bytes ps) = 4 * length ps"
  by (induction ps) (auto simp: raw_bytes_def)

lemma byte_of_small: "n < 256 \<Longrightarrow> unat (of_nat n :: byte) = n"
  by (simp add: unat_of_nat take_bit_nat_eq_self)

lemma byte_of_small_eq_0: "n < 256 \<Longrightarrow> (of_nat n :: byte) = 0 \<longleftrightarrow> n = 0"
proof
  assume n: "n < 256" and z: "(of_nat n :: byte) = 0"
  from n have "unat (of_nat n :: byte) = n" by (rule byte_of_small)
  with z show "n = 0" by simp
qed simp

lemma raw_open_save: "raw_save im = Inr data \<Longrightarrow> raw_open data = Inr im"
  by (auto simp: raw_save_def raw_open_def wf_image_def raw_pixels_bytes length_raw_bytes
      byte_of_small byte_of_small_eq_0 split: if_splits)

lemma raw_png_lossless: "png_lossless raw_library"
  by (simp add: png_lossless_def raw_library_def open_RGBA_def raw_open_save)

lemma raw_resize_exact: "resize_exact raw_library"
  by (auto simp: resize_exact_def raw_library_def raw_resize_def img_size_def split: if_splits)

section \<open>C1: the round trip through encode and decode\<close>

text \<open>
  C1 (as stated): an image that \<^verbatim>\<open>decode_image\<close> produced, encoded with
  \<^verbatim>\<open>encode_image\<close> and decoded again, comes back with the same dimensions.
  This fails on the code: \<^verbatim>\<open>encode_image\<close> puts the data-URI prefix before the
  Base64 text and \<^verbatim>\<open>decode_image\<close> does not take it off. The decoder skips the
  three characters of the prefix that are outside the alphabet and reads the other
  nineteen as digits, so the quads of the payload are shifted by three and the input
  always ends inside a quad. On a one-pixel image:
\<close>

theorem C1_roundtrip_counterexample:
  "decode_image raw_library ''AQEKFB7/'' = Some \<lparr>xsize = 1, ysize = 1, pixels = [(10, 20, 30, 255)]\<rparr>
   \<and> encode_image raw_library \<lparr>xsize = 1, ysize = 1, pixels = [(10, 20, 30, 255)]\<rparr>
       = Some ''data:image/png;base64,AQEKFB7/''
   \<and> decode_image raw_library ''data:image/png;base64,AQEKFB7/'' = None"
  by (simp add: decode_image_def encode_image_def b64decode_def b64_value_def open_RGBA_def
      raw_library_def raw_open_def raw_save_def wf_image_def raw_bytes_def data_uri_prefix_def
      b64_char_def char_of_eq_iff take_bit_eq_mod)

text \<open>
  C1 (amended): for every image that \<^verbatim>\<open>encode_image\<close> encodes, the result starts
  with the fixed prefix, decoding the text after the prefix gives the same image back
  (PNG being lossless), and decoding the whole result fails.
\<close>

theorem C1_roundtrip_without_prefix:
  assumes "png_lossless L" and "encode_image L im = Some s"
  shows "take (length data_uri_prefix) s = data_uri_prefix
       \<and> decode_image L (drop (length data_uri_prefix) s) = Some im
       \<and> decode_image L s = None"
proof -
  from assms(2) obtain data where d: "save_PNG L im = Inr data"
    and s: "s = data_uri_prefix @ b64encode data"
    by (auto simp: encode_image_def split: sum.splits)
  from assms(1) d have o: "open_RGBA L data = Inr im"
    by (simp add: png_lossless_def)
  have "decode_image L (b64encode data) = Some im"
    by (simp add: decode_image_def b64decode_b64encode o)
  moreover have "decode_image L (data_uri_prefix @ b64encode data) = None"
    using b64decode_prefixed [of data] by (auto simp: decode_image_def split: sum.splits)
  ultimately show ?thesis by (simp add: s)
qed

theorem C1_roundtrip_witness:
  "png_lossless raw_library
   \<and> encode_image raw_library \<lparr>xsize = 1, ysize = 1, pixels = [(10, 20, 30, 255)]\<rparr>
       = Some ''data:image/png;base64,AQEKFB7/''
   \<and> decode_image raw_library ''AQEKFB7/'' = Some \<lparr>xsize = 1, ysize = 1, pixels = [(10, 20, 30, 255)]\<rparr>
   \<and> decode_image raw_library ''data:image/png;base64,AQEKFB7/'' = None"
proof -
  have e: "encode_image raw_library \<lparr>xsize = 1, ysize = 1, pixels = [(10, 20, 30, 255)]\<rparr>
       = Some ''data:image/png;base64,AQEKFB7/''"
    by (simp add: encode_image_def raw_library_def raw_save_def wf_image_def raw_bytes_def
        data_uri_prefix_def b64_char_def char_of_eq_iff take_bit_eq_mod)
  show ?thesis
    using C1_roundtrip_without_prefix [OF raw_png_lossless e] e raw_png_lossless
    by (simp add: data_uri_prefix_def)
qed

section \<open>Responses and the running example\<close>

lemma status_jsonify: "status (jsonify body code) = code"
  by (simp add: jsonify_def)

lemma json_jsonify: "json (jsonify body code) = body"
  by (simp add: jsonify_def)

lemma decode_one_pixel: "decode_image raw_library ''AQEKFB7/'' = Some one_pixel"
  by (simp add: decode_image_def b64decode_def b64_value_def open_RGBA_def
      raw_library_def raw_open_def one_pixel_def)

lemma encode_one_pixel:
  "encode_image raw_library one_pixel = Some ''data:image/png;base64,AQEKFB7/''"
  by (simp add: encode_image_def raw_library_def raw_save_def wf_image_def raw_bytes_def
        data_uri_prefix_def b64_char_def char_of_eq_iff take_bit_eq_mod one_pixel_def)

section \<open>C4: a dimension that is not a positive integer\<close>

lemma parse_dimension_bad:
  "s \<noteq> [] \<Longrightarrow> \<not> positive_int_literal s \<Longrightarrow>
   \<exists>msg. parse_dimension (Some s) m1 m2 = Inl (jsonify [(''error'', msg)] 400)"
  by (auto simp: parse_dimension_def positive_int_literal_def split: option.splits)

lemma parse_dimension_cases:
  "(\<exists>msg. parse_dimension d m1 m2 = Inl (jsonify [(''error'', msg)] 400))
   \<or> (\<exists>v. parse_dimension d m1 m2 = Inr v)"
  by (auto simp: parse_dimension_def split: option.splits)

text \<open>
  C4 (as stated): a width or height field that is supplied and is not a strictly
  positive integer string, the empty string included, is answered with 400 and never
  ignored. This fails for the empty string: the guard \<^verbatim>\<open>if width_str:\<close> treats it
  as a field that was not sent. With an empty width and no height the handler answers
  200 and returns the image as it is:
\<close>

theorem C4_empty_width_counterexample:
  "resize_image raw_library
     \<lparr>form = [''image_data'' \<mapsto> ''AQEKFB7/'', ''width'' \<mapsto> ''''], files = Map.empty\<rparr>
   = jsonify [(''image_data'', ''data:image/png;base64,AQEKFB7/''),
              (''message'', ''No dimensions provided, image returned as is.'')] 200"
  by (simp add: resize_image_def decode_one_pixel encode_one_pixel parse_dimension_def)

text \<open>
  C4 (amended): whenever the width or the height field holds a non-empty string that
  \<^verbatim>\<open>int\<close> does not read as an integer above zero, the answer has status 400, an
  \<^verbatim>\<open>error\<close> key and no image; an empty string counts as a field that was not sent.
\<close>

theorem C4_bad_dimension_is_400:
  assumes "(\<exists>s. form req ''width'' = Some s \<and> s \<noteq> [] \<and> \<not> positive_int_literal s)
         \<or> (\<exists>s. form req ''height'' = Some s \<and> s \<noteq> [] \<and> \<not> positive_int_literal s)"
  shows "status (resize_image L req) = 400
       \<and> map_of (json (resize_image L req)) ''error'' \<noteq> None
       \<and> map_of (json (resize_image L req)) ''image_data'' = None"
proof (cases "form req ''image_data''")
  case None
  then show ?thesis by (simp add: resize_image_def status_jsonify json_jsonify)
next
  case (Some b64)
  show ?thesis
  proof (cases "decode_image L b64")
    case None
    with Some show ?thesis by (simp add: resize_image_def status_jsonify json_jsonify)
  next
    case (Some im)
    note im = this
    let ?pw = "parse_dimension (form req ''width'')
                 ''Width must be a positive integer'' ''Invalid width parameter''"
    let ?ph = "parse_dimension (form req ''height'')
                 ''Height must be a positive integer'' ''Invalid height parameter''"
    from assms show ?thesis
    proof
      assume "\<exists>s. form req ''width'' = Some s \<and> s \<noteq> [] \<and> \<not> positive_int_literal s"
      then obtain msg where "?pw = Inl (jsonify [(''error'', msg)] 400)"
        using parse_dimension_bad by metis
      with \<open>form req ''image_data'' = Some b64\<close> im show ?thesis
        by (simp add: resize_image_def status_jsonify json_jsonify)
    next
      assume "\<exists>s. form req ''height'' = Some s \<and> s \<noteq> [] \<and> \<not> positive_int_literal s"
      then obtain msg where h: "?ph = Inl (jsonify [(''error'', msg)] 400)"
        using parse_dimension_bad by metis
      from parse_dimension_cases [of "form req ''width''"
          "''Width must be a positive integer''" "''Invalid width parameter''"]
      show ?thesis
      proof (elim disjE exE)
        fix msg' assume "?pw = Inl (jsonify [(''error'', msg')] 400)"
        with \<open>form req ''image_data'' = Some b64\<close> im show ?thesis
          by (simp add: resize_image_def status_jsonify json_jsonify)
      next
        fix v assume "?pw = Inr v"
        with h \<open>form req ''image_data'' = Some b64\<close> im show ?thesis
          by (simp add: resize_image_def status_jsonify json_jsonify)
      qed
    qed
  qed
qed

theorem C4_bad_dimension_witness:
  "form \<lparr>form = [''image_data'' \<mapsto> ''AQEKFB7/'', ''width'' \<mapsto> ''5'', ''height'' \<mapsto> ''-3''],
          files = Map.empty\<rparr> ''height'' = Some ''-3''
   \<and> ''-3'' \<noteq> [] \<and> \<not> positive_int_literal ''-3''
   \<and> status (resize_image raw_library
         \<lparr>form = [''image_data'' \<mapsto> ''AQEKFB7/'', ''width'' \<mapsto> ''5'', ''height'' \<mapsto> ''-3''],
          files = Map.empty\<rparr>) = 400"
proof -
  have n: "\<not> positive_int_literal ''-3''"
    by (simp add: positive_int_literal_def py_int_def PyLong_FromString_def skip_sign_def
      skip_base_prefix_def Py_ISSPACE_def ascii_of_unicode_def digit_value_def)
  show ?thesis
    using n C4_bad_dimension_is_400 [of
        "\<lparr>form = [''image_data'' \<mapsto> ''AQEKFB7/'', ''width'' \<mapsto> ''5'', ''height'' \<mapsto> ''-3''],
          files = Map.empty\<rparr>" raw_library]
    by simp
qed

section \<open>C6: the shape of error responses\<close>





















lemma raw_library_simps:
  "open_RGBA raw_library data = raw_open data"
  "save_PNG raw_library = raw_save"
  "resize_LANCZOS raw_library = raw_resize"
  "remove raw_library = raw_remove"
  by (simp_all add: raw_library_def open_RGBA_def split: sum.split)







section \<open>Compositing at full and at zero opacity; reading an image back\<close>

lemma shift_opaque: "n < 256 \<Longrightarrow> SHIFTFORDIV255 (n * 32640 + 16384) div 128 = n"
proof -
  assume n: "n < 256"
  have a: "(n * 32640 + 16384) div 256 = 127 * n + 64 + n div 2" by arith
  have "(127 * n + 64 + n div 2 + (n * 32640 + 16384)) div 256 div 128 = n"
    using n by (simp add: div_mult2_eq [symmetric]) 
  then show ?thesis by (simp only: SHIFTFORDIV255_def a)
qed


lemma shift_alpha: "SHIFTFORDIV255 65153 = 255"
  by (simp add: SHIFTFORDIV255_def)

lemma byte_shift_opaque:
  "(of_nat (SHIFTFORDIV255 (unat x * 32640 + 16384) div 128) :: byte) = x"
  using shift_opaque [OF unat_byte_lt [of x]] by simp

lemma composite_opaque: "alpha src = 255 \<Longrightarrow> composite_pixel dst src = src"
proof -
  assume a: "alpha src = 255"
  obtain sr sg sb sa where s: "src = (sr, sg, sb, sa)" by (cases src) auto
  obtain dr dg db da where d: "dst = (dr, dg, db, da)" by (cases dst) auto
  from a s have sa: "sa = 255" by (simp add: alpha_def)
  show ?thesis
    unfolding s d sa composite_pixel_def
    by (simp add: Let_def byte_shift_opaque shift_alpha)
qed

lemma composite_transparent: "alpha src = 0 \<Longrightarrow> composite_pixel dst src = dst"
  by (cases src; cases dst) (simp add: composite_pixel_def alpha_def)


lemma map2_composite_opaque:
  "length xs = length ys \<Longrightarrow> list_all (\<lambda>p. alpha p = 255) ys \<Longrightarrow>
   map2 composite_pixel xs ys = ys"
  by (induction xs ys rule: list_induct2) (simp_all add: composite_opaque)

lemma map2_composite_transparent:
  "length xs = length ys \<Longrightarrow> list_all (\<lambda>p. alpha p = 0) ys \<Longrightarrow>
   map2 composite_pixel xs ys = xs"
  by (induction xs ys rule: list_induct2) (simp_all add: composite_transparent)

lemma Image_new_simps:
  "xsize (Image_new (w, h) c) = w" "ysize (Image_new (w, h) c) = h"
  "length (pixels (Image_new (w, h) c)) = w * h" "wf_image (Image_new (w, h) c)"
  by (cases c; simp add: Image_new_def wf_image_def)+

lemma alpha_composite_same_size:
  "xsize bg = xsize fg \<Longrightarrow> ysize bg = ysize fg \<Longrightarrow>
   alpha_composite bg fg =
     Inr \<lparr>xsize = xsize fg, ysize = ysize fg,
          pixels = map2 composite_pixel (pixels bg) (pixels fg)\<rparr>"
  by (simp add: alpha_composite_def)

lemma alpha_composite_opaque:
  assumes "wf_image fg" "wf_image bg" "xsize bg = xsize fg" "ysize bg = ysize fg"
    and "list_all (\<lambda>p. alpha p = 255) (pixels fg)"
  shows "alpha_composite bg fg = Inr fg"
proof -
  from assms have "length (pixels bg) = length (pixels fg)" by (simp add: wf_image_def)
  with assms show ?thesis
    by (simp add: alpha_composite_same_size map2_composite_opaque)
qed

lemma alpha_composite_transparent:
  assumes "wf_image fg" "wf_image bg" "xsize bg = xsize fg" "ysize bg = ysize fg"
    and "list_all (\<lambda>p. alpha p = 0) (pixels fg)"
  shows "alpha_composite bg fg = Inr bg"
proof -
  from assms have "length (pixels bg) = length (pixels fg)" by (simp add: wf_image_def)
  with assms show ?thesis
    by (simp add: alpha_composite_same_size map2_composite_transparent)
qed

lemma one_pixel_facts:
  "xsize one_pixel = 1" "ysize one_pixel = 1" "wf_image one_pixel"
  "list_all (\<lambda>p. alpha p = 255) (pixels one_pixel)"
  by (simp_all add: one_pixel_def wf_image_def alpha_def)

lemma composite_one_pixel:
  "alpha_composite (Image_new (xsize one_pixel, ysize one_pixel) c) one_pixel = Inr one_pixel"
  by (rule alpha_composite_opaque) (simp_all add: one_pixel_facts Image_new_simps)

lemma decode_encoded:
  assumes "png_lossless L" "encode_image L im = Some b64"
  shows "decode_image L (drop (length data_uri_prefix) b64) = Some im"
proof -
  from assms(2) obtain data where d: "save_PNG L im = Inr data"
    and s: "b64 = data_uri_prefix @ b64encode data"
    by (auto simp: encode_image_def split: sum.splits)
  from assms(1) d have "open_RGBA L data = Inr im" by (simp add: png_lossless_def)
  then show ?thesis by (simp add: s decode_image_def b64decode_b64encode)
qed

lemma response_image_ok:
  assumes "png_lossless L" "encode_image L im = Some b64"
  shows "response_image L (jsonify [(''image_data'', b64), (''message'', m)] 200) = Some im"
  using decode_encoded [OF assms] by (simp add: response_image_def jsonify_def)

section \<open>C8: the colour field\<close>

lemma hex_digit_facts:
  assumes "is_hex_digit c"
  shows "ascii_of_unicode c = c" "\<not> Py_ISSPACE c" "c \<noteq> CHR ''+''" "c \<noteq> CHR ''-''"
    "c \<noteq> CHR ''_''" "c \<noteq> CHR ''x''" "c \<noteq> CHR ''X''" "c \<noteq> CHR ''#''" "digit_value c < 16"
  using assms
  by (auto simp: is_hex_digit_def digit_value_def ascii_of_unicode_def Py_ISSPACE_def Let_def
      split: if_splits)

lemma py_int_hex_pair:
  assumes "is_hex_digit a" "is_hex_digit b"
  shows "py_int 16 [a, b] = Some (hex_byte a b)"
  using hex_digit_facts [OF assms(1)] hex_digit_facts [OF assms(2)]
  by (simp add: py_int_def PyLong_FromString_def skip_sign_def skip_base_prefix_def hex_byte_def)

lemma parse_six:
  assumes "list_all is_hex_digit [a, b, c, d, e, f]"
  shows "parse_hex_color [a, b, c, d, e, f] = Some (hex_byte a b, hex_byte c d, hex_byte e f, 255)"
    and "parse_hex_color (CHR ''#'' # [a, b, c, d, e, f])
         = Some (hex_byte a b, hex_byte c d, hex_byte e f, 255)"
  using assms hex_digit_facts(8) [of a]
  by (simp_all add: parse_hex_color_def py_int_hex_pair)

lemma length_six: "length h = 6 \<Longrightarrow> \<exists>a b c d e f. h = [a, b, c, d, e, f]"
proof -
  assume "length h = 6"
  then have "length h = Suc (Suc (Suc (Suc (Suc (Suc 0)))))" by simp
  then show ?thesis by (auto simp: length_Suc_conv)
qed

lemma six_hex_digits_parse:
  assumes "six_hex_digits s"
  shows "parse_hex_color s = Some (hex_color_value s)"
proof (cases s)
  case Nil
  with assms show ?thesis by (simp add: six_hex_digits_def)
next
  case (Cons c r)
  show ?thesis
  proof (cases "c = CHR ''#''")
    case True
    with assms Cons have "length r = 6" and h: "list_all is_hex_digit r"
      by (simp_all add: six_hex_digits_def)
    then obtain a b c' d e f where r: "r = [a, b, c', d, e, f]"
      using length_six by blast
    from r h have hd: "list_all is_hex_digit [a, b, c', d, e, f]" by simp
    have "parse_hex_color s = Some (hex_byte a b, hex_byte c' d, hex_byte e f, 255)"
      unfolding Cons True r by (rule parse_six(2) [OF hd])
    moreover have "hex_color_value s = (hex_byte a b, hex_byte c' d, hex_byte e f, 255)"
      by (simp add: hex_color_value_def Cons True r)
    ultimately show ?thesis by simp
  next
    case False
    with assms Cons have "length s = 6" and h: "list_all is_hex_digit s"
      by (simp_all add: six_hex_digits_def)
    then obtain a b c' d e f where r: "s = [a, b, c', d, e, f]"
      using length_six by blast
    from r h have hd: "list_all is_hex_digit [a, b, c', d, e, f]" by simp
    from r False Cons have na: "a \<noteq> CHR ''#''" by simp
    have "parse_hex_color s = Some (hex_byte a b, hex_byte c' d, hex_byte e f, 255)"
      unfolding r by (rule parse_six(1) [OF hd])
    moreover have "hex_color_value s = (hex_byte a b, hex_byte c' d, hex_byte e f, 255)"
      using na by (simp add: hex_color_value_def r)
    ultimately show ?thesis by simp
  qed
qed

lemma parse_ZZZZZZ: "parse_hex_color ''#ZZZZZZ'' = None"
  by (simp add: parse_hex_color_def py_int_def PyLong_FromString_def skip_sign_def
      skip_base_prefix_def ascii_of_unicode_def Py_ISSPACE_def digit_value_def)

lemma parse_FF0000FF: "parse_hex_color ''#FF0000FF'' = Some (255, 0, 0, 255)"
  by (simp add: parse_hex_color_def py_int_def PyLong_FromString_def skip_sign_def
      skip_base_prefix_def ascii_of_unicode_def Py_ISSPACE_def digit_value_def)

text \<open>
  C8 (as stated): with a valid image and no background file, a colour that is not a
  valid six-digit hexadecimal string is answered with 400. This fails: the handler
  reads three slices of two characters after the leading \<^verbatim>\<open>#\<close> characters and
  never looks at the length, so eight digits pass, the last two ignored:
\<close>

theorem C8_long_color_counterexample:
  "\<not> six_hex_digits ''#FF0000FF''
   \<and> edit_background raw_library
        \<lparr>form = [''image_data'' \<mapsto> ''AQEKFB7/'', ''color'' \<mapsto> ''#FF0000FF''],
         files = Map.empty\<rparr>
     = jsonify [(''image_data'', ''data:image/png;base64,AQEKFB7/''),
                (''message'', ''Background edited successfully!'')] 200"
  by (simp add: six_hex_digits_def edit_background_def decode_one_pixel encode_one_pixel
      truthy_str_def truthy_file_def make_background_def parse_FF0000FF composite_one_pixel)

text \<open>
  C8 (amended): with no background file, a colour that \<^verbatim>\<open>parse_hex_color\<close> rejects
  (one of its three two-character slices is not a base-16 literal for \<^verbatim>\<open>int\<close>) is
  answered with 400 and an \<^verbatim>\<open>error\<close> key, and with \<^verbatim>\<open>Invalid color hex code\<close> when
  the image is valid and the colour not empty; \<^verbatim>\<open>#ZZZZZZ\<close> is such a colour; and a
  colour of exactly six hexadecimal digits, with or without \<^verbatim>\<open>#\<close>, is parsed into
  its three bytes with alpha 255.
\<close>

theorem C8_color_parsing:
  assumes "form req ''color'' = Some c"
    and "\<not> truthy_file (files req ''background_image'')"
  shows "(parse_hex_color c = None \<longrightarrow>
            status (edit_background L req) = 400
            \<and> map_of (json (edit_background L req)) ''error'' \<noteq> None)
       \<and> (parse_hex_color c = None \<longrightarrow> c \<noteq> [] \<longrightarrow>
            (\<forall>s im. form req ''image_data'' = Some s \<longrightarrow> decode_image L s = Some im \<longrightarrow>
               edit_background L req = jsonify [(''error'', ''Invalid color hex code'')] 400))
       \<and> (six_hex_digits c \<longrightarrow> parse_hex_color c = Some (hex_color_value c))
       \<and> parse_hex_color ''#ZZZZZZ'' = None"
proof -
  have 1: "status (edit_background L req) = 400
            \<and> map_of (json (edit_background L req)) ''error'' \<noteq> None"
    if "parse_hex_color c = None"
    using that assms
    by (auto simp: edit_background_def make_background_def Let_def truthy_str_def jsonify_def
        split: option.splits)
  have 2: "edit_background L req = jsonify [(''error'', ''Invalid color hex code'')] 400"
    if "parse_hex_color c = None" "c \<noteq> []" "form req ''image_data'' = Some s"
      "decode_image L s = Some im" for s im
    using that assms
    by (simp add: edit_background_def make_background_def Let_def truthy_str_def)
  from 1 2 six_hex_digits_parse parse_ZZZZZZ show ?thesis by blast
qed

theorem C8_color_parsing_witness:
  "form \<lparr>form = [''image_data'' \<mapsto> ''AQEKFB7/'', ''color'' \<mapsto> ''#ZZZZZZ''],
          files = Map.empty\<rparr> ''color'' = Some ''#ZZZZZZ''
   \<and> parse_hex_color ''#ZZZZZZ'' = None
   \<and> status (edit_background raw_library
         \<lparr>form = [''image_data'' \<mapsto> ''AQEKFB7/'', ''color'' \<mapsto> ''#ZZZZZZ''],
          files = Map.empty\<rparr>) = 400"
  using C8_color_parsing [of
      "\<lparr>form = [''image_data'' \<mapsto> ''AQEKFB7/'', ''color'' \<mapsto> ''#ZZZZZZ''],
        files = Map.empty\<rparr>" "''#ZZZZZZ''" raw_library]
  by (simp add: truthy_file_def)

section \<open>C5: a solid colour behind the foreground\<close>

lemma parse_red: "parse_hex_color ''#FF0000'' = Some (255, 0, 0, 255)"
  by (simp add: parse_hex_color_def py_int_def PyLong_FromString_def skip_sign_def
      skip_base_prefix_def ascii_of_unicode_def Py_ISSPACE_def digit_value_def)

lemma edit_with_color:
  assumes "form req ''image_data'' = Some s" "decode_image L s = Some fg"
    and "form req ''color'' = Some c" "parse_hex_color c = Some rgba"
    and "\<not> truthy_file (files req ''background_image'')"
  shows "edit_background L req =
     (case encode_image L
             \<lparr>xsize = xsize fg, ysize = ysize fg,
              pixels = map2 composite_pixel
                 (pixels (Image_new (xsize fg, ysize fg) rgba)) (pixels fg)\<rparr> of
        None \<Rightarrow> jsonify [(''error'', ''Failed to encode processed image'')] 500
      | Some b64 \<Rightarrow> jsonify [(''image_data'', b64),
                               (''message'', ''Background edited successfully!'')] 200)"
proof -
  from assms(4) have "c \<noteq> []"
    by (auto simp: parse_hex_color_def py_int_def PyLong_FromString_def skip_sign_def
        skip_base_prefix_def)
  with assms show ?thesis
    by (simp add: edit_background_def make_background_def Let_def truthy_str_def
        alpha_composite_same_size Image_new_simps)
qed

lemma shift_blend_nat:
  assumes "(N::nat) \<le> 65025"
  shows "(128 * N + N div 2 + 16448) div 32768 = (N + 127) div 255"
proof -
  define q where "q = (N + 127) div 255"
  define t where "t = (N + 127) mod 255"
  define h where "h = N div 2"
  have N: "N + 127 = 255 * q + t" and t: "t < 255"
    by (simp_all add: q_def t_def)
  from assms N have q: "q \<le> 255" by (simp add: q_def)
  have h: "h + h \<le> N" "N \<le> h + h + 1" by (simp_all add: h_def)
  have lo: "32768 * q \<le> 128 * N + h + 16448" using N t q h by linarith
  have hi: "128 * N + h + 16448 < 32768 * q + 32768" using N t q h by linarith
  from lo hi have "(128 * N + h + 16448) div 32768 = q"
    by (intro div_nat_eqI) simp_all
  then show ?thesis by (simp add: q_def h_def)
qed

lemma shift_blend:
  assumes "N \<le> 65025"
  shows "SHIFTFORDIV255 (N * 128 + 16384) div 128 = (N + 127) div 255"
proof -
  have a: "(N * 128 + 16384) div 256 = N div 2 + 64" by arith
  have "SHIFTFORDIV255 (N * 128 + 16384) div 128 = (N div 2 + 64 + (N * 128 + 16384)) div 256 div 128"
    by (simp only: SHIFTFORDIV255_def a)
  also have "\<dots> = (128 * N + N div 2 + 16448) div 32768"
    by (simp add: div_mult2_eq [symmetric] ac_simps)
  also have "\<dots> = (N + 127) div 255" using assms by (rule shift_blend_nat)
  finally show ?thesis .
qed


lemma opaque_weights:
  assumes "a \<le> (255::nat)"
  shows "a * 255 + 255 * (255 - a) = 65025"
    and "a * 255 * 255 * 128 div 65025 = a * 128"
    and "255 * 128 - a * 128 = (255 - a) * 128"
  using assms by simp_all

lemma blend_channel:
  assumes "a \<le> 255" "s < 256" "d < 256"
  shows "SHIFTFORDIV255 (s * (128 * a) + d * (32640 - 128 * a) + 16384) div 128
         = (s * a + d * (255 - a) + 127) div 255"
proof -
  have "s * a \<le> 255 * a" using assms(2) by simp
  moreover have "d * (255 - a) \<le> 255 * (255 - a)" using assms(3) by simp
  ultimately have "s * a + d * (255 - a) \<le> 255 * a + 255 * (255 - a)" by linarith
  also have "\<dots> = 65025" using assms(1) by simp
  finally have N: "s * a + d * (255 - a) \<le> 65025" .
  have w: "32640 - 128 * a = (255 - a) * 128" using assms(1) by simp
  have "s * (128 * a) + d * (32640 - 128 * a) + 16384 = (s * a + d * (255 - a)) * 128 + 16384"
    unfolding w by (simp add: algebra_simps)
  then show ?thesis by (simp only: shift_blend [OF N])
qed

lemma composite_over_opaque:
  "composite_pixel (dr, dg, db, 255) (sr, sg, sb, sa) = alpha_over_opaque (dr, dg, db) (sr, sg, sb, sa)"
proof (cases "sa = 0")
  case True
  then show ?thesis
    by (simp add: composite_pixel_def alpha_over_opaque_def mix_def)
next
  case False
  have a: "unat sa \<le> 255" using unat_byte_lt [of sa] by simp
  have b: "unat x < 256" for x :: byte by (rule unat_byte_lt)
  from False show ?thesis
    by (simp add: composite_pixel_def alpha_over_opaque_def mix_def Let_def
        opaque_weights [OF a] blend_channel [OF a b b] shift_alpha)
qed


lemma CLIP8_channel: "CLIP8 v = channel v"
  by (simp add: CLIP8_def channel_def max_def min_def)

lemma parse_hex_color_alpha: "parse_hex_color c = Some (r, g, b, a) \<Longrightarrow> a = 255"
  by (auto simp: parse_hex_color_def Let_def split: option.splits)

lemma map2_replicate: "length ys = n \<Longrightarrow> map2 f (replicate n x) ys = map (f x) ys"
  by (induction ys arbitrary: n) auto

lemma mix_extremes: "mix f b 255 = f" "mix f b 0 = b"
proof -
  have "(unat f * 255 + 127) div 255 = unat f" by simp
  then show "mix f b 255 = f" by (simp add: mix_def)
  have "(unat b * 255 + 127) div 255 = unat b" by simp
  then show "mix f b 0 = b" by (simp add: mix_def)
qed

lemma alpha_over_opaque_extremes:
  "alpha p = 255 \<Longrightarrow> alpha_over_opaque bg p = p"
  "alpha p = 0 \<Longrightarrow> alpha_over_opaque (x, y, z) p = (x, y, z, 255)"
  by (cases p; cases bg; simp add: alpha_over_opaque_def alpha_def mix_extremes)+

lemma solid_background_composite:
  assumes "wf_image fg"
  shows "map2 composite_pixel (pixels (Image_new (xsize fg, ysize fg) (r, g, b, 255))) (pixels fg)
         = map (alpha_over_opaque (channel r, channel g, channel b)) (pixels fg)"
proof -
  have c: "channel 255 = 255" by (simp add: channel_def)
  have "composite_pixel (channel r, channel g, channel b, 255) = alpha_over_opaque (channel r, channel g, channel b)"
    by (rule ext) (auto simp: composite_over_opaque)
  with assms show ?thesis
    by (simp add: Image_new_def CLIP8_channel c wf_image_def map2_replicate)
qed

lemma decode_half_pixel: "decode_image raw_library ''AQEKFB6A'' = Some half_pixel"
  by (simp add: decode_image_def b64decode_def b64_value_def open_RGBA_def
      raw_library_def raw_open_def half_pixel_def)

lemma encode_blended_pixel:
  "encode_image raw_library blended_pixel = Some ''data:image/png;base64,AQGECg//''"
  by (simp add: encode_image_def raw_library_def raw_save_def wf_image_def raw_bytes_def
        data_uri_prefix_def b64_char_def char_of_eq_iff take_bit_eq_mod blended_pixel_def)

lemma half_pixel_over_red:
  "blended_pixel
   = \<lparr>xsize = xsize half_pixel, ysize = ysize half_pixel,
      pixels = map (alpha_over_opaque (channel 255, channel 0, channel 0)) (pixels half_pixel)\<rparr>"
  by (simp add: half_pixel_def blended_pixel_def alpha_over_opaque_def mix_def channel_def)

text \<open>
  C5: with a valid image, no background file and a colour that parses to \<open>(r, g, b, a)\<close>,
  the alpha is 255 and the image the handler composites and encodes is, pixel by pixel,
  the standard alpha-over blend of the foreground with the colour: each channel is
  \<open>(f * alpha + c * (255 - alpha)) / 255\<close> rounded to the nearest integer, \<open>f\<close> the
  foreground's channel, \<open>c\<close> the colour's and \<open>alpha\<close> the foreground's alpha, and
  the result is opaque. Pillow's integer formula, applied to the solid fill, gives exactly
  this image. Where every pixel of the foreground is opaque the result is the foreground;
  where every pixel is transparent it is the colour throughout. The colour \<^verbatim>\<open>#FF0000\<close>
  parses to \<open>(255, 0, 0, 255)\<close>, the channels of red.
\<close>

theorem C5_solid_color_composite:
  assumes "form req ''image_data'' = Some s" and "decode_image L s = Some fg"
    and "wf_image fg"
    and "form req ''color'' = Some c" and "parse_hex_color c = Some (r, g, b, a)"
    and "\<not> truthy_file (files req ''background_image'')"
    and "final = \<lparr>xsize = xsize fg, ysize = ysize fg,
                   pixels = map (alpha_over_opaque (channel r, channel g, channel b))
                              (pixels fg)\<rparr>"
  shows "a = 255
       \<and> alpha_composite (Image_new (xsize fg, ysize fg) (r, g, b, a)) fg = Inr final
       \<and> edit_background L req =
           (case encode_image L final of
              None \<Rightarrow> jsonify [(''error'', ''Failed to encode processed image'')] 500
            | Some b64 \<Rightarrow> jsonify [(''image_data'', b64),
                                     (''message'', ''Background edited successfully!'')] 200)
       \<and> (png_lossless L \<longrightarrow> status (edit_background L req) = 200 \<longrightarrow>
            response_image L (edit_background L req) = Some final)
       \<and> (list_all (\<lambda>p. alpha p = 255) (pixels fg) \<longrightarrow> final = fg)
       \<and> (list_all (\<lambda>p. alpha p = 0) (pixels fg) \<longrightarrow>
            pixels final
              = replicate (xsize fg * ysize fg) (channel r, channel g, channel b, 255))
       \<and> parse_hex_color ''#FF0000'' = Some (255, 0, 0, 255)
       \<and> (channel 255, channel 0, channel 0) = (255, 0, 0)"
proof -
  from assms(5) have a: "a = 255" by (rule parse_hex_color_alpha)
  have comp: "alpha_composite (Image_new (xsize fg, ysize fg) (r, g, b, a)) fg = Inr final"
    by (simp only: a assms(7) alpha_composite_same_size Image_new_simps
        solid_background_composite [OF assms(3)])
  have resp: "edit_background L req =
           (case encode_image L final of
              None \<Rightarrow> jsonify [(''error'', ''Failed to encode processed image'')] 500
            | Some b64 \<Rightarrow> jsonify [(''image_data'', b64),
                                     (''message'', ''Background edited successfully!'')] 200)"
    using edit_with_color [OF assms(1,2,4) assms(5) [unfolded a] assms(6)]
    by (simp only: assms(7) solid_background_composite [OF assms(3)])
  have img: "response_image L (edit_background L req) = Some final"
    if "png_lossless L" "status (edit_background L req) = 200"
  proof (cases "encode_image L final")
    case None
    with resp that(2) show ?thesis by (simp add: jsonify_def)
  next
    case (Some b64)
    with resp response_image_ok [OF that(1) Some] show ?thesis by simp
  qed
  have opaque: "final = fg" if "list_all (\<lambda>p. alpha p = 255) (pixels fg)"
  proof -
    from that have "map (alpha_over_opaque (channel r, channel g, channel b)) (pixels fg)
        = pixels fg"
      by (induction "pixels fg") 
         (simp_all add: list_all_iff alpha_over_opaque_extremes map_idI)
    then show ?thesis by (simp add: assms(7))
  qed
  have transparent: "pixels final
      = replicate (xsize fg * ysize fg) (channel r, channel g, channel b, 255)"
    if "list_all (\<lambda>p. alpha p = 0) (pixels fg)"
  proof -
    from that have "map (alpha_over_opaque (channel r, channel g, channel b)) (pixels fg)
        = replicate (length (pixels fg)) (channel r, channel g, channel b, 255)"
      by (simp add: list_all_iff map_replicate_const [symmetric] alpha_over_opaque_extremes
          cong: map_cong)
    with assms(3) show ?thesis by (simp add: assms(7) wf_image_def)
  qed
  have red: "(channel 255, channel 0, channel 0) = (255, 0, 0)"
    by (simp add: channel_def)
  from a comp resp img opaque transparent parse_red red show ?thesis
    by simp
qed

theorem C5_solid_color_witness:
  "form \<lparr>form = [''image_data'' \<mapsto> ''AQEKFB6A'', ''color'' \<mapsto> ''#FF0000''],
         files = Map.empty\<rparr> ''color'' = Some ''#FF0000''
   \<and> decode_image raw_library ''AQEKFB6A'' = Some half_pixel
   \<and> wf_image half_pixel
   \<and> pixels half_pixel = [(10, 20, 30, 128)]
   \<and> pixels blended_pixel = [(132, 10, 15, 255)]
   \<and> parse_hex_color ''#FF0000'' = Some (255, 0, 0, 255)
   \<and> alpha_composite (Image_new (xsize half_pixel, ysize half_pixel) (255, 0, 0, 255)) half_pixel
       = Inr blended_pixel
   \<and> edit_background raw_library
        \<lparr>form = [''image_data'' \<mapsto> ''AQEKFB6A'', ''color'' \<mapsto> ''#FF0000''],
         files = Map.empty\<rparr>
       = jsonify [(''image_data'', ''data:image/png;base64,AQGECg//''),
                  (''message'', ''Background edited successfully!'')] 200"
proof -
  let ?req = "\<lparr>form = [''image_data'' \<mapsto> ''AQEKFB6A'', ''color'' \<mapsto> ''#FF0000''],
         files = Map.empty\<rparr>"
  have 1: "form ?req ''image_data'' = Some ''AQEKFB6A''" by simp
  have 3: "wf_image half_pixel" by (simp add: half_pixel_def wf_image_def)
  have 4: "form ?req ''color'' = Some ''#FF0000''" by simp
  have 6: "\<not> truthy_file (files ?req ''background_image'')" by (simp add: truthy_file_def)
  have p: "pixels half_pixel = [(10, 20, 30, 128)]" "pixels blended_pixel = [(132, 10, 15, 255)]"
    by (simp_all add: half_pixel_def blended_pixel_def)
  note t = C5_solid_color_composite [OF 1 decode_half_pixel 3 4 parse_red 6 half_pixel_over_red]
  from t have "alpha_composite (Image_new (xsize half_pixel, ysize half_pixel) (255, 0, 0, 255))
       half_pixel = Inr blended_pixel"
    by (rule conjunct2 [THEN conjunct1])
  moreover from t have "edit_background raw_library ?req =
           (case encode_image raw_library blended_pixel of
              None \<Rightarrow> jsonify [(''error'', ''Failed to encode processed image'')] 500
            | Some b64 \<Rightarrow> jsonify [(''image_data'', b64),
                                     (''message'', ''Background edited successfully!'')] 200)"
    by (rule conjunct2 [THEN conjunct2, THEN conjunct1])
  ultimately show ?thesis
    using 4 decode_half_pixel 3 p parse_red by (simp add: encode_blended_pixel)
qed


section \<open>C10: an uploaded background and a colour together\<close>

lemma paste_same_size:
  assumes "wf_image src" "xsize src = xsize dst" "ysize src = ysize dst"
  shows "paste dst src = src"
proof -
  let ?w = "xsize dst" and ?h = "ysize dst"
  have "map (\<lambda>i. let x = i mod ?w; y = i div ?w in
                 if x < xsize src \<and> y < ysize src then pixels src ! (y * xsize src + x)
                 else pixels dst ! i) [0 ..< ?w * ?h]
        = map (\<lambda>i. pixels src ! i) [0 ..< ?w * ?h]"
  proof (rule map_cong [OF refl])
    fix i assume "i \<in> set [0 ..< ?w * ?h]"
    then have i: "i < ?w * ?h" by simp
    then have w: "0 < ?w" by (cases "?w = 0") simp_all
    from i have "i div ?w < ?h" by (simp add: less_mult_imp_div_less mult.commute)
    moreover from w have "i mod ?w < ?w" by simp
    ultimately show "(let x = i mod ?w; y = i div ?w in
                 if x < xsize src \<and> y < ysize src then pixels src ! (y * xsize src + x)
                 else pixels dst ! i) = pixels src ! i"
      using assms(2,3) by (simp add: Let_def)
  qed
  also have "\<dots> = pixels src"
  proof -
    from assms have "?w * ?h = length (pixels src)" by (simp add: wf_image_def)
    then show ?thesis by (simp only: map_nth)
  qed
  finally show ?thesis
    using assms(2,3) by (simp add: paste_def)
qed

lemma edit_file_first:
  assumes "truthy_file file"
  shows "make_background L fg color file = make_background L fg None file"
  using assms by (simp add: make_background_def)

lemma red_pixel_facts:
  "xsize red_pixel = 1" "ysize red_pixel = 1" "wf_image red_pixel"
  by (simp_all add: red_pixel_def wf_image_def)

lemma edit_red_background_no_color:
  "edit_background raw_library
     (red_background_request\<lparr>form := (form red_background_request)(''color'' := None)\<rparr>)
   = jsonify [(''image_data'', ''data:image/png;base64,AQEKFB7/''),
              (''message'', ''Background edited successfully!'')] 200"
proof -
  have o: "raw_open [1, 1, 255, 0, 0, 255] = Inr red_pixel"
    by (simp add: raw_open_def red_pixel_def)
  have r: "raw_resize red_pixel (img_size one_pixel) = Inr red_pixel"
    by (simp add: raw_resize_def img_size_def one_pixel_facts red_pixel_def)
  have p: "paste (Image_new (xsize one_pixel, ysize one_pixel) (0, 0, 0, 0)) red_pixel = red_pixel"
    by (rule paste_same_size) (simp_all add: red_pixel_facts Image_new_simps one_pixel_facts)
  have c: "alpha_composite red_pixel one_pixel = Inr one_pixel"
    by (rule alpha_composite_opaque) (simp_all add: red_pixel_facts one_pixel_facts)
  show ?thesis
    by (simp add: red_background_request_def edit_background_def decode_one_pixel
        truthy_file_def truthy_str_def make_background_def raw_library_simps o r p c
        encode_one_pixel)
qed

text \<open>
  C10: when a background file is uploaded (a file with a name), the colour field plays
  no part: the response is the one the request without the colour field gets, so an
  invalid colour causes no error. When the image and the file decode and the file is
  resized, the response encodes the foreground composited over the resized upload,
  which fills the whole canvas when it has the foreground's size.
\<close>

theorem C10_background_image_precedence:
  assumes "truthy_file (files req ''background_image'')"
  shows "edit_background L req = edit_background L (req\<lparr>form := (form req)(''color'' := None)\<rparr>)
       \<and> (\<forall>s fg f bg_opened bg_image.
            form req ''image_data'' = Some s \<longrightarrow> decode_image L s = Some fg \<longrightarrow>
            files req ''background_image'' = Some f \<longrightarrow>
            open_RGBA L (content f) = Inr bg_opened \<longrightarrow>
            resize_LANCZOS L bg_opened (img_size fg) = Inr bg_image \<longrightarrow>
              edit_background L req =
                (case encode_image L
                        \<lparr>xsize = xsize fg, ysize = ysize fg,
                         pixels = map2 composite_pixel
                           (pixels (paste (Image_new (xsize fg, ysize fg) (0, 0, 0, 0)) bg_image))
                           (pixels fg)\<rparr> of
                   None \<Rightarrow> jsonify [(''error'', ''Failed to encode processed image'')] 500
                 | Some b64 \<Rightarrow> jsonify [(''image_data'', b64),
                                          (''message'', ''Background edited successfully!'')] 200)
              \<and> (wf_image bg_image \<longrightarrow> img_size bg_image = img_size fg \<longrightarrow>
                   paste (Image_new (xsize fg, ysize fg) (0, 0, 0, 0)) bg_image = bg_image))"
proof (intro conjI allI impI)
  show "edit_background L req = edit_background L (req\<lparr>form := (form req)(''color'' := None)\<rparr>)"
    using assms
    by (simp add: edit_background_def Let_def edit_file_first [of _ L _ "form req ''color''"]
        split: option.split)
next
  fix s fg f bg_opened bg_image
  assume a: "form req ''image_data'' = Some s" "decode_image L s = Some fg"
    "files req ''background_image'' = Some f" "open_RGBA L (content f) = Inr bg_opened"
    "resize_LANCZOS L bg_opened (img_size fg) = Inr bg_image"
  have p: "xsize (paste d x) = xsize d" "ysize (paste d x) = ysize d" for d x
    by (simp_all add: paste_def)
  from a assms show "edit_background L req =
                (case encode_image L
                        \<lparr>xsize = xsize fg, ysize = ysize fg,
                         pixels = map2 composite_pixel
                           (pixels (paste (Image_new (xsize fg, ysize fg) (0, 0, 0, 0)) bg_image))
                           (pixels fg)\<rparr> of
                   None \<Rightarrow> jsonify [(''error'', ''Failed to encode processed image'')] 500
                 | Some b64 \<Rightarrow> jsonify [(''image_data'', b64),
                                          (''message'', ''Background edited successfully!'')] 200)"
    by (simp add: edit_background_def make_background_def Let_def alpha_composite_same_size
        p Image_new_simps)
  assume "wf_image bg_image" "img_size bg_image = img_size fg"
  then show "paste (Image_new (xsize fg, ysize fg) (0, 0, 0, 0)) bg_image = bg_image"
    by (intro paste_same_size) (simp_all add: img_size_def Image_new_simps)
qed


theorem C10_background_image_witness:
  "truthy_file (files red_background_request ''background_image'')
   \<and> form red_background_request ''color'' = Some ''#ZZZZZZ''
   \<and> parse_hex_color ''#ZZZZZZ'' = None
   \<and> edit_background raw_library red_background_request
       = jsonify [(''image_data'', ''data:image/png;base64,AQEKFB7/''),
                  (''message'', ''Background edited successfully!'')] 200"
proof -
  have t: "truthy_file (files red_background_request ''background_image'')"
    by (simp add: red_background_request_def truthy_file_def)
  from C10_background_image_precedence [OF t, of raw_library]
  have "edit_background raw_library red_background_request
        = edit_background raw_library
            (red_background_request\<lparr>form := (form red_background_request)(''color'' := None)\<rparr>)"
    by (rule conjunct1)
  with t show ?thesis
    by (simp add: edit_red_background_no_color parse_ZZZZZZ)
       (simp add: red_background_request_def)
qed

section \<open>The resize handler after validation\<close>

lemma parse_dimension_absent:
  "\<not> truthy_str d \<Longrightarrow> parse_dimension d m1 m2 = Inr None"
  by (auto simp: parse_dimension_def truthy_str_def split: option.splits)

lemma py_int_Nil: "py_int base [] = None"
  by (simp add: py_int_def PyLong_FromString_def skip_sign_def skip_base_prefix_def)

lemma parse_dimension_positive:
  "py_int 10 ws = Some w \<Longrightarrow> 0 < w \<Longrightarrow> parse_dimension (Some ws) m1 m2 = Inr (Some w)"
  by (auto simp: parse_dimension_def py_int_Nil)

lemma response_image_of_status:
  assumes "png_lossless L"
    and "r = (case encode_image L im of
                None \<Rightarrow> jsonify [(''error'', e)] 500
              | Some b64 \<Rightarrow> jsonify [(''image_data'', b64), (''message'', m)] 200)"
    and "status r = 200"
  shows "response_image L r = Some im"
proof (cases "encode_image L im")
  case None
  with assms(2,3) show ?thesis by (simp add: jsonify_def)
next
  case (Some b64)
  with assms(2) response_image_ok [OF assms(1) Some] show ?thesis by simp
qed

lemma resize_with_target:
  assumes "form req ''image_data'' = Some s" and "decode_image L s = Some im"
    and "parse_dimension (form req ''width'')
           ''Width must be a positive integer'' ''Invalid width parameter'' = Inr width"
    and "parse_dimension (form req ''height'')
           ''Height must be a positive integer'' ''Invalid height parameter'' = Inr height"
    and "width \<noteq> None \<or> height \<noteq> None"
    and "resize_target im width height = Inr target"
  shows "resize_image L req =
           (case resize_LANCZOS L im target of
              Inl e \<Rightarrow> jsonify [(''error'', ''Failed to resize image''), (''details'', e)] 500
            | Inr resized \<Rightarrow>
                (case encode_image L resized of
                   None \<Rightarrow> jsonify [(''error'', ''Failed to encode processed image'')] 500
                 | Some b64 \<Rightarrow>
                     jsonify [(''image_data'', b64),
                              (''message'', ''Image resized successfully!'')] 200))"
  using assms by (auto simp: resize_image_def)

lemma resized_output:
  assumes "resize_exact L" "png_lossless L"
    and "r = (case resize_LANCZOS L im target of
              Inl e \<Rightarrow> jsonify [(''error'', ''Failed to resize image''), (''details'', e)] 500
            | Inr resized \<Rightarrow>
                (case encode_image L resized of
                   None \<Rightarrow> jsonify [(''error'', ''Failed to encode processed image'')] 500
                 | Some b64 \<Rightarrow>
                     jsonify [(''image_data'', b64),
                              (''message'', ''Image resized successfully!'')] 200))"
    and "status r = 200"
  shows "\<exists>out. resize_LANCZOS L im target = Inr out \<and> response_image L r = Some out
           \<and> img_size out = target"
proof (cases "resize_LANCZOS L im target")
  case (Inl e)
  with assms(3,4) show ?thesis by (simp add: jsonify_def)
next
  case (Inr out)
  with assms(1) have sz: "img_size out = target" unfolding resize_exact_def by blast
  from Inr assms(3) have "r = (case encode_image L out of
                   None \<Rightarrow> jsonify [(''error'', ''Failed to encode processed image'')] 500
                 | Some b64 \<Rightarrow>
                     jsonify [(''image_data'', b64),
                              (''message'', ''Image resized successfully!'')] 200)" by simp
  from response_image_of_status [OF assms(2) this assms(4)] Inr sz show ?thesis by simp
qed

lemma py_int_examples:
  "py_int 10 ''2'' = Some 2" "py_int 10 ''3'' = Some 3" "py_int 10 ''11'' = Some 11"
  by (simp_all add: py_int_def PyLong_FromString_def skip_sign_def skip_base_prefix_def
      ascii_of_unicode_def Py_ISSPACE_def digit_value_def)

lemma raw_resize_ok:
  assumes "0 < w" "0 < h"
  shows "\<exists>out. raw_resize im (w, h) = Inr out \<and> xsize out = nat w \<and> ysize out = nat h
           \<and> wf_image out"
  using assms by (simp add: raw_resize_def wf_image_def)

lemma raw_encode_ok:
  assumes "wf_image out" "0 < xsize out" "xsize out < 256" "0 < ysize out" "ysize out < 256"
  shows "\<exists>b64. encode_image raw_library out = Some b64"
  using assms by (simp add: encode_image_def raw_library_simps raw_save_def)

lemma raw_resize_status:
  assumes "0 < w" "w < 256" "0 < h" "h < 256"
    and "r = (case resize_LANCZOS raw_library im (w, h) of
              Inl e \<Rightarrow> jsonify [(''error'', ''Failed to resize image''), (''details'', e)] 500
            | Inr resized \<Rightarrow>
                (case encode_image raw_library resized of
                   None \<Rightarrow> jsonify [(''error'', ''Failed to encode processed image'')] 500
                 | Some b64 \<Rightarrow>
                     jsonify [(''image_data'', b64),
                              (''message'', ''Image resized successfully!'')] 200))"
  shows "status r = 200"
proof -
  from raw_resize_ok [OF assms(1,3), of im] obtain out where
    o: "raw_resize im (w, h) = Inr out" "xsize out = nat w" "ysize out = nat h" "wf_image out"
    by blast
  from assms(1-4) have "0 < nat w" "nat w < 256" "0 < nat h" "nat h < 256" by simp_all
  with o raw_encode_ok [of out] obtain b64 where
    "encode_image raw_library out = Some b64" by auto
  with o assms(5) show ?thesis by (simp add: raw_library_simps jsonify_def)
qed

lemma scale_examples:
  "scale_dimension 200 300 400 = Inr 150" "scale_dimension 11 15 11 = Inr 14"
  "scale_dimension 2 1 1 = Inr 2"
  by (simp_all add: scale_dimension_def int_truediv_def float_of_int_def float_mul_def
      int_of_float_def round_double_def scaled_def rne_div_def)

lemma width_only_response:
  assumes "form req ''image_data'' = Some s" and "decode_image L s = Some im"
    and "form req ''width'' = Some ws" and "py_int 10 ws = Some w" and "0 < w"
    and "\<not> truthy_str (form req ''height'')"
  shows "resize_image L req =
           (case scale_dimension w (ysize im) (xsize im) of
              Inl e \<Rightarrow> jsonify [(''error'', ''Failed to resize image''), (''details'', e)] 500
            | Inr new_height \<Rightarrow>
                (case resize_LANCZOS L im (w, new_height) of
                   Inl e \<Rightarrow>
                     jsonify [(''error'', ''Failed to resize image''), (''details'', e)] 500
                 | Inr resized \<Rightarrow>
                     (case encode_image L resized of
                        None \<Rightarrow> jsonify [(''error'', ''Failed to encode processed image'')] 500
                      | Some b64 \<Rightarrow>
                          jsonify [(''image_data'', b64),
                                   (''message'', ''Image resized successfully!'')] 200)))"
proof -
  have pw: "parse_dimension (form req ''width'')
           ''Width must be a positive integer'' ''Invalid width parameter'' = Inr (Some w)"
    using assms by (simp add: parse_dimension_positive)
  have ph: "parse_dimension (form req ''height'')
           ''Height must be a positive integer'' ''Invalid height parameter'' = Inr None"
    using assms by (simp add: parse_dimension_absent)
  have tg: "resize_target im (Some w) None =
      (case scale_dimension w (ysize im) (xsize im) of
         Inl e \<Rightarrow> Inl e | Inr new_height \<Rightarrow> Inr (w, new_height))"
    using assms(5) by (simp add: resize_target_def truthy_int_def int_value_def split: sum.split)
  show ?thesis
    using assms(1,2) pw ph tg by (simp add: resize_image_def split: sum.split)
qed

lemma width_only_output:
  assumes "resize_exact L" "png_lossless L"
    and "r = (case scale_dimension w oh ow of
              Inl e \<Rightarrow> jsonify [(''error'', ''Failed to resize image''), (''details'', e)] 500
            | Inr new_height \<Rightarrow>
                (case resize_LANCZOS L im (w, new_height) of
                   Inl e \<Rightarrow>
                     jsonify [(''error'', ''Failed to resize image''), (''details'', e)] 500
                 | Inr resized \<Rightarrow>
                     (case encode_image L resized of
                        None \<Rightarrow> jsonify [(''error'', ''Failed to encode processed image'')] 500
                      | Some b64 \<Rightarrow>
                          jsonify [(''image_data'', b64),
                                   (''message'', ''Image resized successfully!'')] 200)))"
    and "status r = 200"
  shows "\<exists>out new_height. scale_dimension w oh ow = Inr new_height
           \<and> response_image L r = Some out \<and> img_size out = (w, new_height)"
proof (cases "scale_dimension w oh ow")
  case (Inl e)
  with assms(3,4) show ?thesis by (simp add: jsonify_def)
next
  case (Inr new_height)
  with assms(3) have "r = (case resize_LANCZOS L im (w, new_height) of
                   Inl e \<Rightarrow>
                     jsonify [(''error'', ''Failed to resize image''), (''details'', e)] 500
                 | Inr resized \<Rightarrow>
                     (case encode_image L resized of
                        None \<Rightarrow> jsonify [(''error'', ''Failed to encode processed image'')] 500
                      | Some b64 \<Rightarrow>
                          jsonify [(''image_data'', b64),
                                   (''message'', ''Image resized successfully!'')] 200))" by simp
  from resized_output [OF assms(1,2) this assms(4)] Inr show ?thesis by blast
qed

lemma tall_image_facts:
  "xsize tall_image = 11" "ysize tall_image = 15" "wf_image tall_image"
  by (simp_all add: tall_image_def Image_new_simps)

lemma decode_b64encode: "decode_image L (b64encode data) =
    (case open_RGBA L data of Inl e \<Rightarrow> None | Inr im \<Rightarrow> Some im)"
  by (simp add: decode_image_def b64decode_b64encode)

lemma decode_tall_image: "decode_image raw_library (b64encode tall_image_file) = Some tall_image"
proof -
  have "raw_save tall_image = Inr tall_image_file"
    by (simp add: raw_save_def tall_image_facts tall_image_file_def)
  then have "raw_open tall_image_file = Inr tall_image" by (rule raw_open_save)
  then show ?thesis by (simp add: decode_b64encode raw_library_simps)
qed

section \<open>C9: no dimension\<close>

text \<open>
  C9: with a valid image and neither a width nor a height (absent, or empty, which the
  handler takes for absent), the handler encodes the decoded image as it is and answers
  200 with the message that no dimensions were provided; the image a client reads from
  the response is the decoded input, pixel for pixel. (If the encoding fails the
  answer is the 500 of C6.)
\<close>

theorem C9_no_dimensions_is_noop:
  assumes "form req ''image_data'' = Some s" and "decode_image L s = Some im"
    and "\<not> truthy_str (form req ''width'')" and "\<not> truthy_str (form req ''height'')"
  shows "resize_image L req =
           (case encode_image L im of
              None \<Rightarrow> jsonify [(''error'', ''Failed to encode image'')] 500
            | Some b64 \<Rightarrow>
                jsonify [(''image_data'', b64),
                         (''message'', ''No dimensions provided, image returned as is.'')] 200)
       \<and> (png_lossless L \<longrightarrow> status (resize_image L req) = 200 \<longrightarrow>
            response_image L (resize_image L req) = Some im)"
proof -
  have r: "resize_image L req =
           (case encode_image L im of
              None \<Rightarrow> jsonify [(''error'', ''Failed to encode image'')] 500
            | Some b64 \<Rightarrow>
                jsonify [(''image_data'', b64),
                         (''message'', ''No dimensions provided, image returned as is.'')] 200)"
    using assms by (simp add: resize_image_def parse_dimension_absent)
  from response_image_of_status [OF _ r] have
    "png_lossless L \<Longrightarrow> status (resize_image L req) = 200 \<Longrightarrow>
     response_image L (resize_image L req) = Some im" .
  with r show ?thesis by blast
qed

theorem C9_no_dimensions_witness:
  "form \<lparr>form = [''image_data'' \<mapsto> ''AQEKFB7/''], files = Map.empty\<rparr> ''image_data''
     = Some ''AQEKFB7/''
   \<and> decode_image raw_library ''AQEKFB7/'' = Some one_pixel
   \<and> png_lossless raw_library
   \<and> resize_image raw_library \<lparr>form = [''image_data'' \<mapsto> ''AQEKFB7/''], files = Map.empty\<rparr>
       = jsonify [(''image_data'', ''data:image/png;base64,AQEKFB7/''),
                  (''message'', ''No dimensions provided, image returned as is.'')] 200
   \<and> response_image raw_library
        (resize_image raw_library \<lparr>form = [''image_data'' \<mapsto> ''AQEKFB7/''], files = Map.empty\<rparr>)
       = Some one_pixel"
proof -
  let ?req = "\<lparr>form = [''image_data'' \<mapsto> ''AQEKFB7/''], files = Map.empty\<rparr>"
  have 1: "form ?req ''image_data'' = Some ''AQEKFB7/''" by simp
  have 3: "\<not> truthy_str (form ?req ''width'')" by (simp add: truthy_str_def)
  have 4: "\<not> truthy_str (form ?req ''height'')" by (simp add: truthy_str_def)
  note t = C9_no_dimensions_is_noop [OF 1 decode_one_pixel 3 4]
  from t have r: "resize_image raw_library ?req
       = jsonify [(''image_data'', ''data:image/png;base64,AQEKFB7/''),
                  (''message'', ''No dimensions provided, image returned as is.'')] 200"
    by (simp add: encode_one_pixel)
  then have "status (resize_image raw_library ?req) = 200" by (simp add: jsonify_def)
  with t raw_png_lossless have "response_image raw_library (resize_image raw_library ?req)
       = Some one_pixel" by blast
  with r decode_one_pixel raw_png_lossless show ?thesis by simp
qed

section \<open>C3: both dimensions\<close>

text \<open>
  C3: with a valid image and a width and a height that \<^verbatim>\<open>int\<close> reads as positive
  integers, the handler resizes to exactly that pair; whenever it answers 200, the image
  a client reads from the response is the resized one and has exactly the requested
  width and height, whatever the size of the original.
\<close>

theorem C3_both_dimensions_exact:
  assumes "form req ''image_data'' = Some s" and "decode_image L s = Some im"
    and "form req ''width'' = Some ws" and "py_int 10 ws = Some w" and "0 < w"
    and "form req ''height'' = Some hs" and "py_int 10 hs = Some h" and "0 < h"
  shows "resize_image L req =
           (case resize_LANCZOS L im (w, h) of
              Inl e \<Rightarrow> jsonify [(''error'', ''Failed to resize image''), (''details'', e)] 500
            | Inr resized \<Rightarrow>
                (case encode_image L resized of
                   None \<Rightarrow> jsonify [(''error'', ''Failed to encode processed image'')] 500
                 | Some b64 \<Rightarrow>
                     jsonify [(''image_data'', b64),
                              (''message'', ''Image resized successfully!'')] 200))
       \<and> (resize_exact L \<longrightarrow> png_lossless L \<longrightarrow> status (resize_image L req) = 200 \<longrightarrow>
            (\<exists>out. resize_LANCZOS L im (w, h) = Inr out
                 \<and> response_image L (resize_image L req) = Some out
                 \<and> img_size out = (w, h)))"
proof -
  have t: "resize_target im (Some w) (Some h) = Inr (w, h)"
    using assms(5,8) by (simp add: resize_target_def truthy_int_def int_value_def)
  have r: "resize_image L req =
           (case resize_LANCZOS L im (w, h) of
              Inl e \<Rightarrow> jsonify [(''error'', ''Failed to resize image''), (''details'', e)] 500
            | Inr resized \<Rightarrow>
                (case encode_image L resized of
                   None \<Rightarrow> jsonify [(''error'', ''Failed to encode processed image'')] 500
                 | Some b64 \<Rightarrow>
                     jsonify [(''image_data'', b64),
                              (''message'', ''Image resized successfully!'')] 200))"
    by (rule resize_with_target [OF assms(1,2) _ _ _ t])
       (simp_all add: assms parse_dimension_positive)
  from resized_output [OF _ _ r] have
    "resize_exact L \<Longrightarrow> png_lossless L \<Longrightarrow> status (resize_image L req) = 200 \<Longrightarrow>
     \<exists>out. resize_LANCZOS L im (w, h) = Inr out
        \<and> response_image L (resize_image L req) = Some out \<and> img_size out = (w, h)" .
  with r show ?thesis by blast
qed


theorem C3_both_dimensions_witness:
  "decode_image raw_library ''AQEKFB7/'' = Some one_pixel
   \<and> py_int 10 ''2'' = Some 2 \<and> py_int 10 ''3'' = Some 3
   \<and> resize_exact raw_library \<and> png_lossless raw_library
   \<and> status (resize_image raw_library
        \<lparr>form = [''image_data'' \<mapsto> ''AQEKFB7/'', ''width'' \<mapsto> ''2'', ''height'' \<mapsto> ''3''],
         files = Map.empty\<rparr>) = 200
   \<and> map_option img_size (response_image raw_library (resize_image raw_library
        \<lparr>form = [''image_data'' \<mapsto> ''AQEKFB7/'', ''width'' \<mapsto> ''2'', ''height'' \<mapsto> ''3''],
         files = Map.empty\<rparr>)) = Some (2, 3)"
proof -
  let ?req = "\<lparr>form = [''image_data'' \<mapsto> ''AQEKFB7/'', ''width'' \<mapsto> ''2'', ''height'' \<mapsto> ''3''],
         files = Map.empty\<rparr>"
  have 1: "form ?req ''image_data'' = Some ''AQEKFB7/''" by simp
  have 3: "form ?req ''width'' = Some ''2''" by simp
  have 6: "form ?req ''height'' = Some ''3''" by simp
  have p: "(0::int) < 2" "(0::int) < 3" by simp_all
  note t = C3_both_dimensions_exact [OF 1 decode_one_pixel 3 py_int_examples(1) p(1)
      6 py_int_examples(2) p(2)]
  from t have st: "status (resize_image raw_library ?req) = 200"
    by (intro raw_resize_status [of 2 3 _ one_pixel]) simp_all
  with t raw_resize_exact raw_png_lossless
  have "\<exists>out. response_image raw_library (resize_image raw_library ?req) = Some out
          \<and> img_size out = (2, 3)" by blast
  then have "map_option img_size (response_image raw_library (resize_image raw_library ?req))
      = Some (2, 3)" by auto
  with st decode_one_pixel py_int_examples raw_resize_exact raw_png_lossless
  show ?thesis by simp
qed

section \<open>C2: the width alone\<close>

text \<open>
  C2 (as stated): with only a positive width, the output has that width and the
  original height scaled by width / original width, truncated. This fails: the handler
  computes \<^verbatim>\<open>int(width * (original_height / original_width))\<close> in floating point,
  and the rounded quotient times the width can fall just below the exact product.
  Resizing an 11 by 15 image to width 11 gives height 14, not 15:
\<close>

theorem C2_float_truncation_counterexample:
  "decode_image raw_library (b64encode tall_image_file) = Some tall_image
   \<and> img_size tall_image = (11, 15)
   \<and> form tall_request ''width'' = Some ''11'' \<and> form tall_request ''height'' = None
   \<and> status (resize_image raw_library tall_request) = 200
   \<and> map_option img_size (response_image raw_library (resize_image raw_library tall_request))
       = Some (11, 14)
   \<and> (11 * 15) div 11 = (15::int)"
proof -
  have 1: "form tall_request ''image_data'' = Some (b64encode tall_image_file)"
    and 3: "form tall_request ''width'' = Some ''11''"
    and 6: "\<not> truthy_str (form tall_request ''height'')"
    and h: "form tall_request ''height'' = None"
    by (simp_all add: tall_request_def truthy_str_def)
  have p: "(0::int) < 11" by simp
  have r: "resize_image raw_library tall_request =
      (case resize_LANCZOS raw_library tall_image (11, 14) of
                   Inl e \<Rightarrow>
                     jsonify [(''error'', ''Failed to resize image''), (''details'', e)] 500
                 | Inr resized \<Rightarrow>
                     (case encode_image raw_library resized of
                        None \<Rightarrow> jsonify [(''error'', ''Failed to encode processed image'')] 500
                      | Some b64 \<Rightarrow>
                          jsonify [(''image_data'', b64),
                                   (''message'', ''Image resized successfully!'')] 200))"
    using width_only_response [OF 1 decode_tall_image 3 py_int_examples(3) p 6]
    by (simp add: tall_image_facts scale_examples)
  have st: "status (resize_image raw_library tall_request) = 200"
    by (rule raw_resize_status [OF _ _ _ _ r]) simp_all
  from resized_output [OF raw_resize_exact raw_png_lossless r st]
  have "map_option img_size (response_image raw_library (resize_image raw_library tall_request))
       = Some (11, 14)" by auto
  with st 3 h decode_tall_image show ?thesis
    by (simp add: img_size_def tall_image_facts)
qed

text \<open>
  C2 (amended): with a valid image, a width that \<^verbatim>\<open>int\<close> reads as a positive integer
  and no height, the handler resizes to the requested width and to the height
  \<^verbatim>\<open>int(width * (original_height / original_width))\<close> as binary64 arithmetic computes
  it; whenever it answers 200 the image in the response has exactly that size. For
  width 200 on a 400 by 300 image the height is 150.
\<close>

theorem C2_width_only:
  assumes "form req ''image_data'' = Some s" and "decode_image L s = Some im"
    and "form req ''width'' = Some ws" and "py_int 10 ws = Some w" and "0 < w"
    and "\<not> truthy_str (form req ''height'')"
  shows "resize_image L req =
           (case scale_dimension w (ysize im) (xsize im) of
              Inl e \<Rightarrow> jsonify [(''error'', ''Failed to resize image''), (''details'', e)] 500
            | Inr new_height \<Rightarrow>
                (case resize_LANCZOS L im (w, new_height) of
                   Inl e \<Rightarrow>
                     jsonify [(''error'', ''Failed to resize image''), (''details'', e)] 500
                 | Inr resized \<Rightarrow>
                     (case encode_image L resized of
                        None \<Rightarrow> jsonify [(''error'', ''Failed to encode processed image'')] 500
                      | Some b64 \<Rightarrow>
                          jsonify [(''image_data'', b64),
                                   (''message'', ''Image resized successfully!'')] 200)))
       \<and> (resize_exact L \<longrightarrow> png_lossless L \<longrightarrow> status (resize_image L req) = 200 \<longrightarrow>
            (\<exists>out new_height.
                 scale_dimension w (ysize im) (xsize im) = Inr new_height
                 \<and> response_image L (resize_image L req) = Some out
                 \<and> img_size out = (w, new_height)))
       \<and> scale_dimension 200 300 400 = Inr 150"
proof -
  note r = width_only_response [OF assms]
  from width_only_output [OF _ _ r] have
    "resize_exact L \<Longrightarrow> png_lossless L \<Longrightarrow> status (resize_image L req) = 200 \<Longrightarrow>
     \<exists>out new_height. scale_dimension w (ysize im) (xsize im) = Inr new_height
        \<and> response_image L (resize_image L req) = Some out
        \<and> img_size out = (w, new_height)" .
  with r scale_examples(1) show ?thesis by blast
qed

theorem C2_width_only_witness:
  "decode_image raw_library ''AQEKFB7/'' = Some one_pixel
   \<and> py_int 10 ''2'' = Some 2
   \<and> resize_exact raw_library \<and> png_lossless raw_library
   \<and> scale_dimension 2 (ysize one_pixel) (xsize one_pixel) = Inr 2
   \<and> status (resize_image raw_library
        \<lparr>form = [''image_data'' \<mapsto> ''AQEKFB7/'', ''width'' \<mapsto> ''2''], files = Map.empty\<rparr>) = 200
   \<and> map_option img_size (response_image raw_library (resize_image raw_library
        \<lparr>form = [''image_data'' \<mapsto> ''AQEKFB7/'', ''width'' \<mapsto> ''2''], files = Map.empty\<rparr>))
       = Some (2, 2)"
proof -
  let ?req = "\<lparr>form = [''image_data'' \<mapsto> ''AQEKFB7/'', ''width'' \<mapsto> ''2''], files = Map.empty\<rparr>"
  have 1: "form ?req ''image_data'' = Some ''AQEKFB7/''" by simp
  have 3: "form ?req ''width'' = Some ''2''" by simp
  have 6: "\<not> truthy_str (form ?req ''height'')" by (simp add: truthy_str_def)
  have p: "(0::int) < 2" by simp
  have sc: "scale_dimension 2 (ysize one_pixel) (xsize one_pixel) = Inr 2"
    by (simp only: one_pixel_facts scale_examples)
  note t = C2_width_only [OF 1 decode_one_pixel 3 py_int_examples(1) p 6]
  from t have "resize_image raw_library ?req =
      (case resize_LANCZOS raw_library one_pixel (2, 2) of
                   Inl e \<Rightarrow>
                     jsonify [(''error'', ''Failed to resize image''), (''details'', e)] 500
                 | Inr resized \<Rightarrow>
                     (case encode_image raw_library resized of
                        None \<Rightarrow> jsonify [(''error'', ''Failed to encode processed image'')] 500
                      | Some b64 \<Rightarrow>
                          jsonify [(''image_data'', b64),
                                   (''message'', ''Image resized successfully!'')] 200))"
    by (simp add: sc)
  then have st: "status (resize_image raw_library ?req) = 200"
    by (intro raw_resize_status [of 2 2 _ one_pixel]) simp_all
  with t raw_resize_exact raw_png_lossless
  have "\<exists>out new_height. scale_dimension 2 (ysize one_pixel) (xsize one_pixel) = Inr new_height
          \<and> response_image raw_library (resize_image raw_library ?req) = Some out
          \<and> img_size out = (2, new_height)" by blast
  with sc have "map_option img_size (response_image raw_library (resize_image raw_library ?req))
      = Some (2, 2)" by auto
  with st sc decode_one_pixel py_int_examples raw_resize_exact raw_png_lossless
  show ?thesis by simp
qed

section \<open>C7: when decoding fails\<close>

lemma b64_char_ascii': "is_b64_char c \<Longrightarrow> (of_char c :: nat) < 128"
  by (auto simp: is_b64_char_def b64_value_def Let_def split: if_splits)

lemma is_b64_not_pad: "is_b64_char c \<Longrightarrow> c \<noteq> CHR ''=''"
  by (auto simp: is_b64_char_def b64_value_def)

lemma a2b_alphabet_run:
  "list_all is_b64_char cs \<Longrightarrow> q < 4 \<Longrightarrow>
   \<exists>l' out'. a2b_loop q l p out (cs @ rest)
      = a2b_loop ((q + length cs) mod 4) l' (if cs = [] then p else 0) out' rest"
proof (induction cs arbitrary: q l p out)
  case Nil
  then show ?case by auto
next
  case (Cons c cs)
  from Cons.prems obtain v where v: "b64_value c = Some v" and np: "c \<noteq> CHR ''=''"
    by (auto simp: is_b64_char_def is_b64_not_pad)
  from Cons.prems have cs: "list_all is_b64_char cs" by simp
  have m: "(Suc q mod 4 + length cs) mod 4 = (q + length (c # cs)) mod 4"
    by (simp add: mod_simps)
  consider "q = 0" | "q = 1" | "q = 2" | "q = 3" using Cons.prems(2) by linarith
  then show ?case
  proof cases
    case 1
    from Cons.IH [OF cs, of 1 v 0 out] obtain l' out' where
      "a2b_loop 1 v 0 out (cs @ rest) = a2b_loop ((1 + length cs) mod 4) l' (if cs = [] then 0 else 0) out' rest"
      by auto
    with 1 v np show ?thesis by (auto simp del: a2b_loop.simps(1))
  next
    case 2
    from Cons.IH [OF cs, of 2 "v mod 16" 0 "out @ [of_nat (l * 4 + v div 16)]"] obtain l' out' where
      "a2b_loop 2 (v mod 16) 0 (out @ [of_nat (l * 4 + v div 16)]) (cs @ rest)
       = a2b_loop ((2 + length cs) mod 4) l' (if cs = [] then 0 else 0) out' rest"
      by auto
    with 2 v np show ?thesis by (auto simp del: a2b_loop.simps(1))
  next
    case 3
    from Cons.IH [OF cs, of 3 "v mod 4" 0 "out @ [of_nat (l * 16 + v div 4)]"] obtain l' out' where
      "a2b_loop 3 (v mod 4) 0 (out @ [of_nat (l * 16 + v div 4)]) (cs @ rest)
       = a2b_loop ((3 + length cs) mod 4) l' (if cs = [] then 0 else 0) out' rest"
      by auto
    with 3 v np show ?thesis by (auto simp del: a2b_loop.simps(1))
  next
    case 4
    from Cons.IH [OF cs, of 0 0 0 "out @ [of_nat (l * 64 + v)]"] obtain l' out' where
      "a2b_loop 0 0 0 (out @ [of_nat (l * 64 + v)]) (cs @ rest)
       = a2b_loop ((0 + length cs) mod 4) l' (if cs = [] then 0 else 0) out' rest"
      by auto
    with 4 v np show ?thesis by (auto simp del: a2b_loop.simps(1) simp: mod_simps)
  qed
qed


lemma mod4_pad:
  "(n + 1) mod 4 = 0 \<Longrightarrow> n mod 4 = (3::nat)" "(n + 2) mod 4 = 0 \<Longrightarrow> n mod 4 = (2::nat)"
  by presburger+

lemma valid_base64_decodes:
  assumes "valid_base64 s"
  shows "\<exists>data. b64decode s = Inr data"
proof -
  let ?body = "takeWhile is_b64_char s" and ?pad = "dropWhile is_b64_char s"
  have s: "s = ?body @ ?pad" by simp
  have body: "list_all is_b64_char ?body"
    by (simp add: list_all_iff) (meson set_takeWhileD)
  from assms have len: "length s mod 4 = 0"
    and pad: "?pad = [] \<or> ?pad = ''='' \<or> ?pad = ''==''"
    by (simp_all add: valid_base64_def Let_def)
  have "\<forall>c \<in> set ?body. (of_char c :: nat) < 128"
    using body by (auto simp: list_all_iff b64_char_ascii')
  moreover have "\<forall>c \<in> set ?pad. (of_char c :: nat) < 128"
  proof -
    from pad consider "?pad = []" | "?pad = ''=''" | "?pad = ''==''" by blast
    then show ?thesis
    proof cases
      case 1
      then show ?thesis by (simp only: list.set ball_empty)
    next
      case 2
      then show ?thesis by (simp only: 2) simp
    next
      case 3
      then show ?thesis by (simp only: 3) simp
    qed
  qed
  ultimately have "\<forall>c \<in> set (?body @ ?pad). (of_char c :: nat) < 128"
    by (simp only: set_append ball_Un)
  then have "\<not> list_ex (\<lambda>c. 128 \<le> (of_char c :: nat)) s"
    by (simp only: s [symmetric] list_ex_iff) (auto simp: not_le)
  then have d: "b64decode s = a2b_loop 0 0 0 [] (?body @ ?pad)"
    by (simp add: b64decode_def)
  from a2b_alphabet_run [OF body, of 0 0 0 "[]" ?pad] obtain l' out' where
    run: "a2b_loop 0 0 0 [] (?body @ ?pad) = a2b_loop (length ?body mod 4) l' 0 out' ?pad"
    by auto
  have l: "length s = length ?body + length ?pad"
    by (metis length_append s)
  from pad show ?thesis
  proof (elim disjE)
    assume e: "?pad = []"
    with l len have "length ?body mod 4 = 0" by simp
    with d run e show ?thesis by simp
  next
    assume e: "?pad = ''=''"
    with l len have "(length ?body + 1) mod 4 = 0" by simp
    then have "length ?body mod 4 = 3" by (rule mod4_pad)
    with d run e show ?thesis by simp
  next
    assume e: "?pad = ''==''"
    with l len have "(length ?body + 2) mod 4 = 0" by simp
    then have "length ?body mod 4 = 2" by (rule mod4_pad)
    with d run e show ?thesis by simp
  qed
qed

lemma undecodable_is_400:
  assumes "form req ''image_data'' = Some s" "decode_image L s = None"
  shows "status (remove_background L req) = 400 \<and> status (edit_background L req) = 400
       \<and> status (resize_image L req) = 400"
  using assms
  by (simp add: remove_background_def edit_background_def resize_image_def jsonify_def)

lemma decode_image_None_iff:
  "decode_image L s = None \<longleftrightarrow>
     (isl (b64decode s) \<or> (\<exists>data. b64decode s = Inr data \<and> isl (open_RGBA L data)))"
  by (auto simp: decode_image_def split: sum.splits)

lemma decode_image_Some:
  "decode_image L s = Some im \<Longrightarrow>
   \<exists>data opened. b64decode s = Inr data \<and> Image_open L data = Inr opened
      \<and> convert_RGBA L opened = Inr im"
  by (auto simp: decode_image_def open_RGBA_def split: sum.splits)

text \<open>
  C7 (as stated): \<^verbatim>\<open>decode_image\<close> fails exactly when its input is not valid Base64 or
  the decoded bytes are no image. One direction fails: \<^verbatim>\<open>b64decode\<close> runs with
  \<^verbatim>\<open>validate=False\<close> and drops every character outside the alphabet, so a string
  that is not valid Base64 can decode to an image:
\<close>

theorem C7_lenient_base64_counterexample:
  "\<not> valid_base64 ''AQEK!!!!FB7/''
   \<and> decode_image raw_library ''AQEK!!!!FB7/'' = Some one_pixel"
  by (simp add: valid_base64_def is_b64_char_def decode_image_def b64decode_def b64_value_def
      raw_library_simps raw_open_def one_pixel_def)

text \<open>
  C7 (amended): \<^verbatim>\<open>decode_image\<close> fails exactly when \<^verbatim>\<open>b64decode\<close> raises on the
  string or the bytes it returns cannot be opened and converted; every valid Base64
  string is one on which \<^verbatim>\<open>b64decode\<close> does not raise; an image that is returned is
  the result of \<^verbatim>\<open>convert("RGBA")\<close>; and each handler answers a failed decoding
  with 400.
\<close>

theorem C7_decode_failure:
  "(decode_image L s = None \<longleftrightarrow>
      (isl (b64decode s) \<or> (\<exists>data. b64decode s = Inr data \<and> isl (open_RGBA L data))))
   \<and> (valid_base64 s \<longrightarrow> \<not> isl (b64decode s))
   \<and> (\<forall>im. decode_image L s = Some im \<longrightarrow>
         (\<exists>data opened. b64decode s = Inr data \<and> Image_open L data = Inr opened
            \<and> convert_RGBA L opened = Inr im))
   \<and> (\<forall>req. form req ''image_data'' = Some s \<longrightarrow> decode_image L s = None \<longrightarrow>
         status (remove_background L req) = 400 \<and> status (edit_background L req) = 400
         \<and> status (resize_image L req) = 400)"
proof (intro conjI allI impI)
  show "decode_image L s = None \<longleftrightarrow>
      (isl (b64decode s) \<or> (\<exists>data. b64decode s = Inr data \<and> isl (open_RGBA L data)))"
    by (rule decode_image_None_iff)
next
  assume "valid_base64 s"
  then obtain data where "b64decode s = Inr data" using valid_base64_decodes by blast
  then show "\<not> isl (b64decode s)" by simp
next
  fix im assume "decode_image L s = Some im"
  then show "\<exists>data opened. b64decode s = Inr data \<and> Image_open L data = Inr opened
            \<and> convert_RGBA L opened = Inr im" by (rule decode_image_Some)
next
  fix req :: request
  assume a: "form req ''image_data'' = Some s" "decode_image L s = None"
  from undecodable_is_400 [OF a] show "status (remove_background L req) = 400" by simp
  from undecodable_is_400 [OF a] show "status (edit_background L req) = 400" by simp
  from undecodable_is_400 [OF a] show "status (resize_image L req) = 400" by simp
qed

theorem C7_decode_witness:
  "valid_base64 ''AQEKFB7/'' \<and> \<not> isl (b64decode ''AQEKFB7/'')
   \<and> decode_image raw_library ''AQEKFB7/'' = Some one_pixel
   \<and> \<not> valid_base64 ''AQE'' \<and> decode_image raw_library ''AQE'' = None
   \<and> status (remove_background raw_library
         \<lparr>form = [''image_data'' \<mapsto> ''AQE''], files = Map.empty\<rparr>) = 400"
proof -
  have v: "valid_base64 ''AQEKFB7/''"
    by (simp add: valid_base64_def is_b64_char_def b64_value_def)
  have n: "decode_image raw_library ''AQE'' = None"
    by (simp add: decode_image_def b64decode_def b64_value_def)
  have f: "form \<lparr>form = [''image_data'' \<mapsto> ''AQE''], files = Map.empty\<rparr> ''image_data'' = Some ''AQE''"
    by simp
  from C7_decode_failure [of raw_library "''AQEKFB7/''"] v
  have "\<not> isl (b64decode ''AQEKFB7/'')" by blast
  moreover from C7_decode_failure [of raw_library "''AQE''"] n f
  have "status (remove_background raw_library
         \<lparr>form = [''image_data'' \<mapsto> ''AQE''], files = Map.empty\<rparr>) = 400" by blast
  moreover have "\<not> valid_base64 ''AQE''" by (simp add: valid_base64_def)
  ultimately show ?thesis using v n decode_one_pixel by simp
qed

end
